theory Spec2Isabelle
  imports Main
begin

section \<open>The descriptor table of the process\<close>

text \<open>
  The code of \<^verbatim>\<open>openvpn/common/redir.hpp\<close> talks to the operating system through
  \<^verbatim>\<open>pipe\<close>, \<^verbatim>\<open>fcntl(F_SETFD, FD_CLOEXEC)\<close>, \<^verbatim>\<open>open\<close>, \<^verbatim>\<open>dup2\<close> and \<^verbatim>\<open>close\<close>.
  The operating system is a record: the table of open descriptors (an association
  list from descriptor numbers to what they refer to), the descriptors marked
  close-on-exec, the number of pipes created so far, a script that decides which of the
  coming fallible calls fail (\<open>True\<close>: the call fails; an exhausted script: no more
  failures), and the trace of every call made.
\<close>

type_synonym fd = int

datatype fobj = Pipe_read nat | Pipe_write nat | Path string int

datatype syscall =
  Sys_pipe | Sys_fcntl fd | Sys_open string int | Sys_dup2 fd fd | Sys_close fd

record os =
  fdtab :: "(fd \<times> fobj) list"
  cloexec_set :: "fd list"
  npipes :: nat
  faults :: "bool list"
  calls :: "syscall list"

definition O_RDONLY :: int where
  "O_RDONLY = 0"

definition open_fds :: "os \<Rightarrow> fd set" where
  "open_fds s = fst ` set (fdtab s)"

definition fd_file :: "os \<Rightarrow> fd \<Rightarrow> fobj option" where
  "fd_file s d = map_of (fdtab s) d"

text \<open>A new descriptor is the lowest number that is not in use.\<close>

definition lowest_free :: "(fd \<times> fobj) list \<Rightarrow> fd" where
  "lowest_free tab =
     hd (filter (\<lambda>d. d \<notin> fst ` set tab) (map int [0..<Suc (length tab)]))"

definition take_fault :: "os \<Rightarrow> bool \<times> os" where
  "take_fault s =
     (case faults s of [] \<Rightarrow> (False, s) | b # bs \<Rightarrow> (b, s\<lparr>faults := bs\<rparr>))"

text \<open>The next fallible call fails.\<close>

definition failing :: "os \<Rightarrow> bool" where
  "failing s = (faults s \<noteq> [] \<and> hd (faults s))"

definition logged :: "syscall \<Rightarrow> os \<Rightarrow> os" where
  "logged c s = s\<lparr>calls := calls s @ [c]\<rparr>"

text \<open>\<^verbatim>\<open>pipe(fd)\<close>: \<open>None\<close> stands for the return value \<open>-1\<close>, \<open>Some (r, w)\<close> for
  success with \<open>fd[0] = r\<close>, the read end, and \<open>fd[1] = w\<close>, the write end.\<close>

definition sys_pipe :: "os \<Rightarrow> (fd \<times> fd) option \<times> os" where
  "sys_pipe s =
     (case take_fault (logged Sys_pipe s) of
        (True, s1) \<Rightarrow> (None, s1)
      | (False, s1) \<Rightarrow>
          (let r = lowest_free (fdtab s1);
               tab1 = fdtab s1 @ [(r, Pipe_read (npipes s1))];
               w = lowest_free tab1
           in (Some (r, w),
               s1\<lparr>fdtab := tab1 @ [(w, Pipe_write (npipes s1))],
                  npipes := Suc (npipes s1)\<rparr>)))"

text \<open>\<^verbatim>\<open>fcntl(fd, F_SETFD, FD_CLOEXEC)\<close>: \<open>-1\<close> on failure, \<open>0\<close> on success.\<close>

definition sys_fcntl_cloexec :: "fd \<Rightarrow> os \<Rightarrow> int \<times> os" where
  "sys_fcntl_cloexec d s =
     (case take_fault (logged (Sys_fcntl d) s) of
        (True, s1) \<Rightarrow> (- 1, s1)
      | (False, s1) \<Rightarrow>
          if d \<in> open_fds s1 then (0, s1\<lparr>cloexec_set := d # cloexec_set s1\<rparr>)
          else (- 1, s1))"

text \<open>\<^verbatim>\<open>open(path, flags, 0)\<close>: the new descriptor, or \<open>-1\<close>.\<close>

definition sys_open :: "string \<Rightarrow> int \<Rightarrow> os \<Rightarrow> int \<times> os" where
  "sys_open path flags s =
     (case take_fault (logged (Sys_open path flags) s) of
        (True, s1) \<Rightarrow> (- 1, s1)
      | (False, s1) \<Rightarrow>
          (let d = lowest_free (fdtab s1)
           in (d, s1\<lparr>fdtab := fdtab s1 @ [(d, Path path flags)]\<rparr>)))"

text \<open>\<^verbatim>\<open>dup2(old, new)\<close>: \<open>new\<close> now refers to what \<open>old\<close> refers to (whatever \<open>new\<close>
  referred to is closed silently, and the copy is not close-on-exec); \<open>-1\<close> when the
  call fails or \<open>old\<close> is not open.\<close>

definition sys_dup2 :: "fd \<Rightarrow> fd \<Rightarrow> os \<Rightarrow> int \<times> os" where
  "sys_dup2 old new s =
     (case take_fault (logged (Sys_dup2 old new) s) of
        (True, s1) \<Rightarrow> (- 1, s1)
      | (False, s1) \<Rightarrow>
          (case map_of (fdtab s1) old of
             None \<Rightarrow> (- 1, s1)
           | Some f \<Rightarrow>
               if old = new then (new, s1)
               else (new, s1\<lparr>fdtab := filter (\<lambda>e. fst e \<noteq> new) (fdtab s1) @ [(new, f)],
                              cloexec_set := removeAll new (cloexec_set s1)\<rparr>)))"

text \<open>\<^verbatim>\<open>close(fd)\<close>: \<open>0\<close>, or \<open>-1\<close> when \<open>fd\<close> is not open.\<close>

definition sys_close :: "fd \<Rightarrow> os \<Rightarrow> int \<times> os" where
  "sys_close d s =
     (let s1 = logged (Sys_close d) s
      in if d \<in> open_fds s1
         then (0, s1\<lparr>fdtab := filter (\<lambda>e. fst e \<noteq> d) (fdtab s1),
                      cloexec_set := removeAll d (cloexec_set s1)\<rparr>)
         else (- 1, s1))"

section \<open>Descriptor handles\<close>

text \<open>
  Modelled from the spec: \<^verbatim>\<open>ScopedFD\<close> (\<^verbatim>\<open>openvpn/common/scoped_fd.hpp\<close>) is not
  among the sources. The spec's Descriptor Handle owns at most one descriptor;
  \<open>reset(fd)\<close> closes the descriptor owned before and takes \<open>fd\<close>; \<open>release()\<close>
  returns the descriptor and clears the ownership without closing; \<open>close()\<close> closes
  if owned and clears the state, and is a no-op on an undefined handle; \<open>defined()\<close>
  holds iff the handle owns a valid descriptor; destruction closes unless released.
  A handle is the integer it holds, \<open>-1\<close> when it owns nothing: the constructor of
  \<^verbatim>\<open>RedirectPipe\<close> passes the result of \<^verbatim>\<open>open\<close> to \<open>reset\<close> and asks \<open>defined()\<close>
  to find out whether \<^verbatim>\<open>open\<close> returned \<open>-1\<close>.
\<close>

type_synonym ScopedFD = int

definition ScopedFD_undefined :: ScopedFD where
  "ScopedFD_undefined = - 1"

definition ScopedFD_defined :: "ScopedFD \<Rightarrow> bool" where
  "ScopedFD_defined h = (0 \<le> h)"

definition ScopedFD_release :: "ScopedFD \<Rightarrow> int \<times> ScopedFD" where
  "ScopedFD_release h = (h, ScopedFD_undefined)"

definition ScopedFD_close :: "ScopedFD \<Rightarrow> os \<Rightarrow> ScopedFD \<times> os" where
  "ScopedFD_close h s =
     (if ScopedFD_defined h then (ScopedFD_undefined, snd (sys_close h s)) else (h, s))"

definition ScopedFD_reset :: "int \<Rightarrow> ScopedFD \<Rightarrow> os \<Rightarrow> ScopedFD \<times> os" where
  "ScopedFD_reset d h s = (d, snd (ScopedFD_close h s))"

section \<open>RedirectStdFD\<close>

record RedirectStdFD =
  in_fd :: ScopedFD
  out_fd :: ScopedFD
  err_fd :: ScopedFD
  combine_out_err :: bool

text \<open>A freshly constructed object: three undefined handles, \<open>combine_out_err = false\<close>.\<close>

definition RedirectStdFD_new :: RedirectStdFD where
  "RedirectStdFD_new =
     \<lparr>in_fd = ScopedFD_undefined, out_fd = ScopedFD_undefined,
      err_fd = ScopedFD_undefined, combine_out_err = False\<rparr>"

text \<open>\<^verbatim>\<open>RedirectStdFD::close\<close>: \<open>in.close(); out.close(); err.close();\<close>\<close>

definition RedirectStdFD_close :: "RedirectStdFD \<Rightarrow> os \<Rightarrow> RedirectStdFD \<times> os" where
  "RedirectStdFD_close r s =
     (let (i, s1) = ScopedFD_close (in_fd r) s;
          (out, s2) = ScopedFD_close (out_fd r) s1;
          (e, s3) = ScopedFD_close (err_fd r) s2
      in (r\<lparr>in_fd := i, out_fd := out, err_fd := e\<rparr>, s3))"

text \<open>
  \<^verbatim>\<open>RedirectStdFD::redirect\<close>, in its three blocks. The function is \<^verbatim>\<open>noexcept\<close> and
  returns \<^verbatim>\<open>void\<close>; the value of every \<^verbatim>\<open>dup2\<close> is dropped.
\<close>

definition redirect_stdin :: "RedirectStdFD \<Rightarrow> os \<Rightarrow> RedirectStdFD \<times> os" where
  "redirect_stdin r s =
     (if ScopedFD_defined (in_fd r)
      then (let s1 = snd (sys_dup2 (in_fd r) 0 s)
            in if in_fd r \<le> 2
               then (r\<lparr>in_fd := snd (ScopedFD_release (in_fd r))\<rparr>, s1)
               else (r, s1))
      else (r, s))"

definition redirect_stdout :: "RedirectStdFD \<Rightarrow> os \<Rightarrow> RedirectStdFD \<times> os" where
  "redirect_stdout r s =
     (if ScopedFD_defined (out_fd r)
      then (let s1 = snd (sys_dup2 (out_fd r) 1 s);
                s2 = (if \<not> ScopedFD_defined (err_fd r) \<and> combine_out_err r
                      then snd (sys_dup2 (out_fd r) 2 s1) else s1)
            in if out_fd r \<le> 2
               then (r\<lparr>out_fd := snd (ScopedFD_release (out_fd r))\<rparr>, s2)
               else (r, s2))
      else (r, s))"

definition redirect_stderr :: "RedirectStdFD \<Rightarrow> os \<Rightarrow> RedirectStdFD \<times> os" where
  "redirect_stderr r s =
     (if ScopedFD_defined (err_fd r)
      then (let s1 = snd (sys_dup2 (err_fd r) 2 s)
            in if err_fd r \<le> 2
               then (r\<lparr>err_fd := snd (ScopedFD_release (err_fd r))\<rparr>, s1)
               else (r, s1))
      else (r, s))"

definition redirect :: "RedirectStdFD \<Rightarrow> os \<Rightarrow> RedirectStdFD \<times> os" where
  "redirect r s =
     (let (r1, s1) = redirect_stdin r s;
          (r2, s2) = redirect_stdout r1 s1;
          (r3, s3) = redirect_stderr r2 s2
      in RedirectStdFD_close r3 s3)"

section \<open>RedirectPipe: construction\<close>

text \<open>
  The one exception type of the file, \<^verbatim>\<open>redirect_std_err\<close>, carries a message. The
  three messages of \<^verbatim>\<open>RedirectPipe\<close> (without the text of \<^verbatim>\<open>errno\<close>) are the spec's
  error kinds \<open>PipeCreationError\<close>, \<open>CloexecError\<close> and \<open>OpenError\<close>.
\<close>

datatype redirect_std_err = Redirect_std_err string

definition PipeCreationError :: redirect_std_err where
  "PipeCreationError = Redirect_std_err ''error creating pipe''"

definition CloexecError :: redirect_std_err where
  "CloexecError = Redirect_std_err ''error setting FD_CLOEXEC on pipe''"

definition OpenError :: redirect_std_err where
  "OpenError = Redirect_std_err ''error opening /dev/null''"

definition make_pipe :: "os \<Rightarrow> (redirect_std_err + fd \<times> fd) \<times> os" where
  "make_pipe s =
     (case sys_pipe s of
        (None, s1) \<Rightarrow> (Inl PipeCreationError, s1)
      | (Some p, s1) \<Rightarrow> (Inr p, s1))"

definition cloexec :: "fd \<Rightarrow> os \<Rightarrow> (redirect_std_err + fd) \<times> os" where
  "cloexec d s =
     (case sys_fcntl_cloexec d s of
        (rc, s1) \<Rightarrow> if rc < 0 then (Inl CloexecError, s1) else (Inr d, s1))"

text \<open>
  The state the constructor body works on: the object under construction, the
  \<^verbatim>\<open>remote\<close> object it was given by reference, and the operating system. The array
  \<^verbatim>\<open>int fd[2]\<close> is local to each block below.
\<close>

record ctor_state =
  this :: RedirectStdFD
  remote :: RedirectStdFD
  sys :: os

text \<open>The block \<^verbatim>\<open>// stdout\<close>.\<close>

definition ctor_stdout :: "ctor_state \<Rightarrow> (redirect_std_err + unit) \<times> ctor_state" where
  "ctor_stdout c =
     (case make_pipe (sys c) of
        (Inl e, s1) \<Rightarrow> (Inl e, c\<lparr>sys := s1\<rparr>)
      | (Inr (fd0, fd1), s1) \<Rightarrow>
          (case cloexec fd0 s1 of
             (Inl e, s2) \<Rightarrow> (Inl e, c\<lparr>sys := s2\<rparr>)
           | (Inr d, s2) \<Rightarrow>
               (let (h, s3) = ScopedFD_reset d (out_fd (this c)) s2;
                    (h', s4) = ScopedFD_reset fd1 (out_fd (remote c)) s3
                in (Inr (), c\<lparr>this := (this c)\<lparr>out_fd := h\<rparr>,
                              remote := (remote c)\<lparr>out_fd := h'\<rparr>,
                              sys := s4\<rparr>))))"

text \<open>The block \<^verbatim>\<open>// stderr\<close>.\<close>

definition ctor_stderr ::
  "bool \<Rightarrow> ctor_state \<Rightarrow> (redirect_std_err + unit) \<times> ctor_state" where
  "ctor_stderr combine_out_err_arg c0 =
     (let c = c0\<lparr>this := (this c0)\<lparr>combine_out_err := combine_out_err_arg\<rparr>,
                  remote := (remote c0)\<lparr>combine_out_err := combine_out_err_arg\<rparr>\<rparr>
      in if \<not> combine_out_err (this c)
         then (case make_pipe (sys c) of
                 (Inl e, s1) \<Rightarrow> (Inl e, c\<lparr>sys := s1\<rparr>)
               | (Inr (fd0, fd1), s1) \<Rightarrow>
                   (case cloexec fd0 s1 of
                      (Inl e, s2) \<Rightarrow> (Inl e, c\<lparr>sys := s2\<rparr>)
                    | (Inr d, s2) \<Rightarrow>
                        (let (h, s3) = ScopedFD_reset d (err_fd (this c)) s2;
                             (h', s4) = ScopedFD_reset fd1 (err_fd (remote c)) s3
                         in (Inr (), c\<lparr>this := (this c)\<lparr>err_fd := h\<rparr>,
                                       remote := (remote c)\<lparr>err_fd := h'\<rparr>,
                                       sys := s4\<rparr>))))
         else (Inr (), c))"

text \<open>The block \<^verbatim>\<open>// stdin\<close>.\<close>

definition ctor_stdin ::
  "bool \<Rightarrow> ctor_state \<Rightarrow> (redirect_std_err + unit) \<times> ctor_state" where
  "ctor_stdin enable_in c =
     (if enable_in
      then (case make_pipe (sys c) of
              (Inl e, s1) \<Rightarrow> (Inl e, c\<lparr>sys := s1\<rparr>)
            | (Inr (fd0, fd1), s1) \<Rightarrow>
                (case cloexec fd1 s1 of
                   (Inl e, s2) \<Rightarrow> (Inl e, c\<lparr>sys := s2\<rparr>)
                 | (Inr d, s2) \<Rightarrow>
                     (let (h, s3) = ScopedFD_reset d (in_fd (this c)) s2;
                          (h', s4) = ScopedFD_reset fd0 (in_fd (remote c)) s3
                      in (Inr (), c\<lparr>this := (this c)\<lparr>in_fd := h\<rparr>,
                                    remote := (remote c)\<lparr>in_fd := h'\<rparr>,
                                    sys := s4\<rparr>))))
      else (let (d, s1) = sys_open ''/dev/null'' O_RDONLY (sys c);
                (h, s2) = ScopedFD_reset d (in_fd (remote c)) s1;
                c1 = c\<lparr>remote := (remote c)\<lparr>in_fd := h\<rparr>, sys := s2\<rparr>
            in if \<not> ScopedFD_defined (in_fd (remote c1))
               then (Inl OpenError, c1)
               else (Inr (), c1)))"

definition RedirectPipe_body ::
  "bool \<Rightarrow> bool \<Rightarrow> ctor_state \<Rightarrow> (redirect_std_err + unit) \<times> ctor_state" where
  "RedirectPipe_body combine_out_err_arg enable_in c =
     (case ctor_stdout c of
        (Inl e, c1) \<Rightarrow> (Inl e, c1)
      | (Inr _, c1) \<Rightarrow>
          (case ctor_stderr combine_out_err_arg c1 of
             (Inl e, c2) \<Rightarrow> (Inl e, c2)
           | (Inr _, c2) \<Rightarrow> ctor_stdin enable_in c2))"

text \<open>
  When the body of a constructor throws, C++ destroys the base-class subobject, which
  is complete: the members \<^verbatim>\<open>err\<close>, \<^verbatim>\<open>out\<close> and \<^verbatim>\<open>in\<close> of \<^verbatim>\<open>RedirectStdFD\<close> are
  destroyed in the reverse order of their declaration, and the destructor of a handle
  closes it. Nothing destroys \<^verbatim>\<open>remote\<close>, which belongs to the caller, nor the integers
  in \<^verbatim>\<open>fd\<close>.
\<close>

definition RedirectStdFD_destroy :: "RedirectStdFD \<Rightarrow> os \<Rightarrow> os" where
  "RedirectStdFD_destroy r s =
     snd (ScopedFD_close (in_fd r)
       (snd (ScopedFD_close (out_fd r)
         (snd (ScopedFD_close (err_fd r) s)))))"

text \<open>
  \<^verbatim>\<open>RedirectPipe(remote, combine_out_err_arg, enable_in)\<close>: the exception or the new
  object, then \<^verbatim>\<open>remote\<close> as the call leaves it, then the operating system.
\<close>

definition RedirectPipe ::
  "RedirectStdFD \<Rightarrow> bool \<Rightarrow> bool \<Rightarrow> os \<Rightarrow>
     (redirect_std_err + RedirectStdFD) \<times> RedirectStdFD \<times> os" where
  "RedirectPipe remote_arg combine_out_err_arg enable_in s =
     (case RedirectPipe_body combine_out_err_arg enable_in
             \<lparr>this = RedirectStdFD_new, remote = remote_arg, sys = s\<rparr> of
        (Inl e, c) \<Rightarrow> (Inl e, remote c, RedirectStdFD_destroy (this c) (sys c))
      | (Inr _, c) \<Rightarrow> (Inr (this c), remote c, sys c))"

text \<open>The descriptors a \<^verbatim>\<open>RedirectStdFD\<close> owns.\<close>

definition handles :: "RedirectStdFD \<Rightarrow> fd set" where
  "handles r = set (filter ScopedFD_defined [in_fd r, out_fd r, err_fd r])"

text \<open>
  The spec's reading of the constructor's failures: the fallible steps in the order the
  constructor takes them, and the error of the first one that fails.
\<close>

datatype step = Create_pipe | Mark_cloexec | Open_null

definition ctor_steps :: "bool \<Rightarrow> bool \<Rightarrow> step list" where
  "ctor_steps combine_out_err_arg enable_in =
     [Create_pipe, Mark_cloexec]
     @ (if combine_out_err_arg then [] else [Create_pipe, Mark_cloexec])
     @ (if enable_in then [Create_pipe, Mark_cloexec] else [Open_null])"

fun step_error :: "step \<Rightarrow> redirect_std_err" where
  "step_error Create_pipe = PipeCreationError"
| "step_error Mark_cloexec = CloexecError"
| "step_error Open_null = OpenError"

fun first_failure :: "step list \<Rightarrow> bool list \<Rightarrow> redirect_std_err option" where
  "first_failure [] fs = None"
| "first_failure (k # ks) [] = None"
| "first_failure (k # ks) (f # fs) = (if f then Some (step_error k) else first_failure ks fs)"






section \<open>RedirectPipe: transact\<close>

text \<open>
  \<^verbatim>\<open>struct InOut { std::string in, out, err; }\<close>
\<close>

record InOut =
  inout_in :: string
  inout_out :: string
  inout_err :: string

text \<open>
  The asio library is not part of the repository. What \<^verbatim>\<open>transact\<close> uses of it:
  a stream descriptor wraps a native descriptor and is open until \<^verbatim>\<open>close()\<close>; an
  asynchronous operation started on it is outstanding work of the \<^verbatim>\<open>io_context\<close>
  until its completion handler has been called with an error code and a byte count;
  \<^verbatim>\<open>io_context.run()\<close> calls the handlers of completed operations, one at a time,
  and returns when no work is outstanding. The library calls themselves are taken not
  to throw.

  There is one driver for each of the three objects \<^verbatim>\<open>send_in\<close>, \<^verbatim>\<open>recv_out\<close> and
  \<^verbatim>\<open>recv_err\<close>. The \<^verbatim>\<open>io_context\<close> holds the drivers with an operation outstanding
  and the trace of every call made on a stream descriptor.
\<close>

record stream_descriptor =
  native_handle :: fd
  is_open :: bool

datatype driver = Send_in | Recv_out | Recv_err

datatype sd_call =
  Async_write_some driver string | Async_read_some driver nat | Sd_close driver

record io_context =
  pending :: "driver list"
  sd_calls :: "sd_call list"

text \<open>
  \<^verbatim>\<open>class SD\<close> holds \<^verbatim>\<open>std::unique_ptr<asio::posix::stream_descriptor> sd\<close>;
  \<^verbatim>\<open>SD_OUT\<close> adds the buffer \<^verbatim>\<open>buf\<close> with the bytes still to send, \<^verbatim>\<open>SD_IN\<close> the
  list \<^verbatim>\<open>data\<close> of the bytes received (its \<^verbatim>\<open>buf\<close> is the 2048-byte buffer of the
  read in flight, which the handler moves into \<^verbatim>\<open>data\<close>).

  Modelled from the spec: \<^verbatim>\<open>BufferAllocated\<close> and \<^verbatim>\<open>BufferList\<close>
  (\<^verbatim>\<open>openvpn/buffer\<close>) are not among the sources. \<open>advance(n)\<close> drops the first \<open>n\<close>
  bytes (the spec: "advances its cursor"), \<open>const_buffers_1_limit(2048)\<close> offers the
  first 2048 bytes at most ("a bounded write (chunk size 2048 bytes) of the remaining
  unsent suffix"), \<open>put_consume\<close> "appends whatever bytes were received to an internal
  accumulator", and \<open>to_string\<close> is the accumulated byte sequence.
\<close>

record SD =
  sd :: "stream_descriptor option"

record SD_OUT = SD +
  buf :: string

record SD_IN = SD +
  data :: string

text \<open>
  The state of one call of \<^verbatim>\<open>transact\<close>: its three local objects, the \<^verbatim>\<open>io_context\<close>,
  and \<open>in_pipe\<close>, the bytes that the operating system has accepted so far from writes
  on the descriptor of \<^verbatim>\<open>send_in\<close>.
\<close>

record transaction =
  send_in :: SD_OUT
  recv_out :: SD_IN
  recv_err :: SD_IN
  io :: io_context
  in_pipe :: string

text \<open>\<^verbatim>\<open>SD::SD\<close>: a defined handle is released into a new stream descriptor.\<close>

definition SD_ctor :: "ScopedFD \<Rightarrow> stream_descriptor option \<times> ScopedFD" where
  "SD_ctor h =
     (if ScopedFD_defined h
      then (Some \<lparr>native_handle = fst (ScopedFD_release h), is_open = True\<rparr>,
            snd (ScopedFD_release h))
      else (None, h))"

definition SD_defined :: "'a SD_scheme \<Rightarrow> bool" where
  "SD_defined x = (sd x \<noteq> None)"

definition started :: "driver \<Rightarrow> sd_call \<Rightarrow> io_context \<Rightarrow> io_context" where
  "started d c i = i\<lparr>pending := pending i @ [d], sd_calls := sd_calls i @ [c]\<rparr>"

definition finished :: "driver \<Rightarrow> io_context \<Rightarrow> io_context" where
  "finished d i = i\<lparr>pending := removeAll d (pending i)\<rparr>"

definition closed_sd :: "stream_descriptor option \<Rightarrow> stream_descriptor option" where
  "closed_sd x = map_option (\<lambda>y. y\<lparr>is_open := False\<rparr>) x"

text \<open>\<^verbatim>\<open>SD_OUT::queue_write\<close> and the handler it passes to \<^verbatim>\<open>async_write_some\<close>.\<close>

definition queue_write :: "transaction \<Rightarrow> transaction" where
  "queue_write t =
     t\<lparr>io := started Send_in (Async_write_some Send_in (take 2048 (buf (send_in t)))) (io t)\<rparr>"

definition write_handler :: "bool \<Rightarrow> nat \<Rightarrow> transaction \<Rightarrow> transaction" where
  "write_handler ec bytes_sent t =
     (if \<not> ec \<and> bytes_sent < length (buf (send_in t))
      then queue_write (t\<lparr>send_in := (send_in t)\<lparr>buf := drop bytes_sent (buf (send_in t))\<rparr>\<rparr>)
      else t\<lparr>send_in := (send_in t)\<lparr>sd := closed_sd (sd (send_in t))\<rparr>,
             io := (io t)\<lparr>sd_calls := sd_calls (io t) @ [Sd_close Send_in]\<rparr>\<rparr>)"

text \<open>\<^verbatim>\<open>SD_IN::queue_read\<close> and its handler, for the object \<open>d\<close> names.\<close>

definition get_in :: "driver \<Rightarrow> transaction \<Rightarrow> SD_IN" where
  "get_in d t = (if d = Recv_err then recv_err t else recv_out t)"

definition set_in :: "driver \<Rightarrow> SD_IN \<Rightarrow> transaction \<Rightarrow> transaction" where
  "set_in d x t = (if d = Recv_err then t\<lparr>recv_err := x\<rparr> else t\<lparr>recv_out := x\<rparr>)"

definition queue_read :: "driver \<Rightarrow> transaction \<Rightarrow> transaction" where
  "queue_read d t = t\<lparr>io := started d (Async_read_some d 2048) (io t)\<rparr>"

definition read_handler :: "driver \<Rightarrow> bool \<Rightarrow> string \<Rightarrow> transaction \<Rightarrow> transaction" where
  "read_handler d ec received t =
     (if \<not> ec
      then queue_read d (set_in d ((get_in d t)\<lparr>data := data (get_in d t) @ received\<rparr>) t)
      else (set_in d ((get_in d t)\<lparr>sd := closed_sd (sd (get_in d t))\<rparr>) t)
             \<lparr>io := (io t)\<lparr>sd_calls := sd_calls (io t) @ [Sd_close d]\<rparr>\<rparr>)"

text \<open>
  What the operating system reports for an outstanding operation. A write completes
  with an error flag and a number of bytes, of which the system takes no more than the
  chunk offered; a read completes with an error flag and the bytes delivered, no more
  than the 2048 the buffer holds. A completion for a driver with no operation
  outstanding does not happen: it changes nothing.
\<close>

datatype completion = Write_completed bool nat | Read_completed driver bool string

definition accepted :: "bool \<Rightarrow> nat \<Rightarrow> transaction \<Rightarrow> string" where
  "accepted ec k t = (if ec then [] else take k (take 2048 (buf (send_in t))))"

fun complete :: "completion \<Rightarrow> transaction \<Rightarrow> transaction" where
  "complete (Write_completed ec k) t =
     (if Send_in \<in> set (pending (io t))
      then write_handler ec (length (accepted ec k t))
             (t\<lparr>io := finished Send_in (io t), in_pipe := in_pipe t @ accepted ec k t\<rparr>)
      else t)"
| "complete (Read_completed d ec bs) t =
     (if d \<noteq> Send_in \<and> d \<in> set (pending (io t))
      then read_handler d ec (if ec then [] else take 2048 bs) (t\<lparr>io := finished d (io t)\<rparr>)
      else t)"

text \<open>
  \<^verbatim>\<open>io_context.run()\<close>, given the completions that the operating system will report, in
  their order: it returns when no operation is outstanding, and it does not return
  (\<open>None\<close>) when the completions end while an operation is still outstanding. There is
  no other way out of the loop.
\<close>

fun run :: "completion list \<Rightarrow> transaction \<Rightarrow> transaction option" where
  "run [] t = (if pending (io t) = [] then Some t else None)"
| "run (c # cs) t = (if pending (io t) = [] then Some t else run cs (complete c t))"

text \<open>The constructors \<^verbatim>\<open>SD_OUT::SD_OUT\<close> and \<^verbatim>\<open>SD_IN::SD_IN\<close>.\<close>

definition SD_OUT_ctor :: "string \<Rightarrow> ScopedFD \<Rightarrow> transaction \<Rightarrow> transaction \<times> ScopedFD" where
  "SD_OUT_ctor content h t =
     (let (x, h') = SD_ctor h;
          t1 = t\<lparr>send_in := \<lparr>sd = x, buf = []\<rparr>\<rparr>
      in if SD_defined (send_in t1)
         then (queue_write (t1\<lparr>send_in := (send_in t1)\<lparr>buf := content\<rparr>\<rparr>), h')
         else (t1, h'))"

definition SD_IN_ctor :: "driver \<Rightarrow> ScopedFD \<Rightarrow> transaction \<Rightarrow> transaction \<times> ScopedFD" where
  "SD_IN_ctor d h t =
     (let (x, h') = SD_ctor h;
          t1 = set_in d \<lparr>sd = x, data = []\<rparr> t
      in if SD_defined (get_in d t1) then (queue_read d t1, h') else (t1, h'))"

definition content :: "SD_IN \<Rightarrow> string" where
  "content x = data x"

definition transaction_new :: transaction where
  "transaction_new =
     \<lparr>send_in = \<lparr>sd = None, buf = []\<rparr>, recv_out = \<lparr>sd = None, data = []\<rparr>,
      recv_err = \<lparr>sd = None, data = []\<rparr>, io = \<lparr>pending = [], sd_calls = []\<rparr>,
      in_pipe = []\<rparr>"

text \<open>The first three statements of \<^verbatim>\<open>transact\<close>, up to \<^verbatim>\<open>io_context.run()\<close>.\<close>

definition transact_start :: "InOut \<Rightarrow> RedirectStdFD \<Rightarrow> transaction \<times> RedirectStdFD" where
  "transact_start inout self =
     (let (t1, i) = SD_OUT_ctor (inout_in inout) (in_fd self) transaction_new;
          (t2, out) = SD_IN_ctor Recv_out (out_fd self) t1;
          (t3, e) = SD_IN_ctor Recv_err (err_fd self) t2
      in (t3, self\<lparr>in_fd := i, out_fd := out, err_fd := e\<rparr>))"

text \<open>
  \<^verbatim>\<open>RedirectPipe::transact\<close>: \<open>None\<close> when \<^verbatim>\<open>io_context.run()\<close> does not return,
  otherwise \<^verbatim>\<open>inout\<close> and the object as the call leaves them.
\<close>

definition transact ::
  "completion list \<Rightarrow> InOut \<Rightarrow> RedirectStdFD \<Rightarrow> (InOut \<times> RedirectStdFD) option" where
  "transact cs inout self =
     (case transact_start inout self of
        (t0, self') \<Rightarrow>
          (case run cs t0 of
             None \<Rightarrow> None
           | Some t \<Rightarrow>
               Some (inout\<lparr>inout_out := content (recv_out t),
                           inout_err := content (recv_err t)\<rparr>, self')))"

text \<open>A driver is terminal when it has no stream descriptor or a closed one.\<close>

definition terminal :: "'a SD_scheme \<Rightarrow> bool" where
  "terminal x = (case sd x of None \<Rightarrow> True | Some y \<Rightarrow> \<not> is_open y)"

definition all_terminal :: "transaction \<Rightarrow> bool" where
  "all_terminal t = (terminal (send_in t) \<and> terminal (recv_out t) \<and> terminal (recv_err t))"

text \<open>
  The state of the loop is consistent when the drivers with an operation outstanding
  are the drivers that are not terminal.
\<close>

definition consistent :: "transaction \<Rightarrow> bool" where
  "consistent t =
     ((Send_in \<in> set (pending (io t))) = (\<not> terminal (send_in t))
      \<and> (Recv_out \<in> set (pending (io t))) = (\<not> terminal (recv_out t))
      \<and> (Recv_err \<in> set (pending (io t))) = (\<not> terminal (recv_err t)))"

text \<open>The calls that one driver has made on its stream descriptor, in their order.\<close>

fun call_driver :: "sd_call \<Rightarrow> driver" where
  "call_driver (Async_write_some d bs) = d"
| "call_driver (Async_read_some d n) = d"
| "call_driver (Sd_close d) = d"

definition calls_of :: "driver \<Rightarrow> transaction \<Rightarrow> sd_call list" where
  "calls_of d t = filter (\<lambda>c. call_driver c = d) (sd_calls (io t))"

text \<open>
  What holds of the writer between two completions, for the request's input \<open>input\<close>,
  where \<open>failed\<close> says whether a write has completed with an error: the writer has
  made a sequence of writes, each of at most 2048 bytes from the start of a suffix of
  the input, followed by one close if it is terminal and by nothing if not; while it
  is not terminal its write is outstanding and the bytes accepted followed by the bytes
  in its buffer are the input; once it is terminal nothing of it is outstanding, and
  the bytes accepted are the whole input unless a write failed.
\<close>

definition writer_inv :: "string \<Rightarrow> bool \<Rightarrow> transaction \<Rightarrow> bool" where
  "writer_inv input failed t =
     ((\<exists>ws. calls_of Send_in t =
              map (Async_write_some Send_in) ws
              @ (if terminal (send_in t) then [Sd_close Send_in] else [])
            \<and> (\<forall>w \<in> set ws. length w \<le> 2048 \<and> (\<exists>n. w = take 2048 (drop n input))))
      \<and> (if terminal (send_in t)
         then Send_in \<notin> set (pending (io t)) \<and> (in_pipe t = input \<or> failed)
         else Send_in \<in> set (pending (io t)) \<and> in_pipe t @ buf (send_in t) = input))"

text \<open>Several calls of \<^verbatim>\<open>transact\<close> on the same object, one after the other.\<close>

fun transacts ::
  "(completion list \<times> InOut) list \<Rightarrow> RedirectStdFD \<Rightarrow> (InOut list \<times> RedirectStdFD) option" where
  "transacts [] self = Some ([], self)"
| "transacts ((cs, inout) # rest) self =
     (case transact cs inout self of
        None \<Rightarrow> None
      | Some (r, self') \<Rightarrow>
          (case transacts rest self' of
             None \<Rightarrow> None
           | Some (rs, self'') \<Rightarrow> Some (r # rs, self'')))"

section \<open>A child that copies its input to its output\<close>

text \<open>
  The environment of \<^verbatim>\<open>transact\<close> when the child copies its standard input to its
  standard output, writes nothing to its standard error and ends at the end of its
  input: the read end for the output delivers exactly the bytes written to the write
  end for the input. \<open>p\<close> holds the bytes written and not yet delivered. A schedule
  says which stream the system serves next and with how many bytes; a stream that is
  not ready is passed over. The read end for the output is at its end when \<open>p\<close> is
  empty and the write end for the input is closed (or was never there), and so is the
  read end for the error stream.
\<close>

datatype sched = Do_write nat | Do_read_out nat | Do_read_err

fun echo_completion :: "sched \<Rightarrow> transaction \<Rightarrow> string \<Rightarrow> (completion \<times> string) option" where
  "echo_completion (Do_write k) t p =
     (if Send_in \<in> set (pending (io t))
      then Some (Write_completed False k, p @ accepted False k t)
      else None)"
| "echo_completion (Do_read_out k) t p =
     (if Recv_out \<notin> set (pending (io t)) then None
      else if p \<noteq> []
      then Some (Read_completed Recv_out False (take (max 1 (min k 2048)) p),
                 drop (max 1 (min k 2048)) p)
      else if terminal (send_in t) then Some (Read_completed Recv_out True [], p)
      else None)"
| "echo_completion Do_read_err t p =
     (if Recv_err \<in> set (pending (io t)) \<and> terminal (send_in t)
      then Some (Read_completed Recv_err True [], p)
      else None)"

fun echo_completions :: "sched list \<Rightarrow> transaction \<Rightarrow> string \<Rightarrow> completion list" where
  "echo_completions [] t p = []"
| "echo_completions (a # as) t p =
     (case echo_completion a t p of
        None \<Rightarrow> echo_completions as t p
      | Some (c, p') \<Rightarrow> c # echo_completions as (complete c t) p')"

definition echo_transact ::
  "sched list \<Rightarrow> InOut \<Rightarrow> RedirectStdFD \<Rightarrow> (InOut \<times> RedirectStdFD) option" where
  "echo_transact as inout self =
     transact (echo_completions as (fst (transact_start inout self)) []) inout self"

text \<open>The state of \<^verbatim>\<open>transact\<close> and the bytes in flight after a schedule.\<close>

fun echo_run :: "sched list \<Rightarrow> transaction \<times> string \<Rightarrow> transaction \<times> string" where
  "echo_run [] x = x"
| "echo_run (a # as) x =
     (case echo_completion a (fst x) (snd x) of
        None \<Rightarrow> echo_run as x
      | Some (c, p') \<Rightarrow> echo_run as (complete c (fst x), p'))"

text \<open>
  What holds between two completions when the child copies its input: the loop is
  consistent, the writer is as \<open>writer_inv\<close> says with no write failed, the bytes
  accepted from the writer are the bytes the output reader has accumulated followed by
  the bytes in flight, the output reader is terminal only when nothing is in flight
  and the writer is terminal, and nothing has arrived on the error stream.
\<close>

definition echo_inv :: "string \<Rightarrow> transaction \<Rightarrow> string \<Rightarrow> bool" where
  "echo_inv input t p =
     (consistent t \<and> writer_inv input False t
      \<and> in_pipe t = data (recv_out t) @ p
      \<and> (if terminal (recv_out t) then p = [] \<and> terminal (send_in t) else True)
      \<and> data (recv_err t) = [])"

text \<open>A schedule that serves the three streams in turn, \<open>n\<close> times.\<close>

definition round_robin :: "nat \<Rightarrow> sched list" where
  "round_robin n = concat (replicate n [Do_write 2048, Do_read_out 2048, Do_read_err])"

section \<open>Examples of states\<close>

text \<open>A process with its three standard descriptors open on a terminal, and the
  same process when the calls fail as the script \<open>fs\<close> says.\<close>

definition os_std :: os where
  "os_std =
     \<lparr>fdtab = [(0, Path ''/dev/tty'' 2), (1, Path ''/dev/tty'' 2), (2, Path ''/dev/tty'' 2)],
      cloexec_set = [], npipes = 0, faults = [], calls = []\<rparr>"

definition os_failing :: "bool list \<Rightarrow> os" where
  "os_failing fs = os_std\<lparr>faults := fs\<rparr>"

section \<open>What the system calls change\<close>

lemma take_fault_calls [simp]: "calls (snd (take_fault s)) = calls s"
  by (simp add: take_fault_def split: list.splits)

lemma take_fault_fdtab [simp]: "fdtab (snd (take_fault s)) = fdtab s"
  by (simp add: take_fault_def split: list.splits)

lemma take_fault_npipes [simp]: "npipes (snd (take_fault s)) = npipes s"
  by (simp add: take_fault_def split: list.splits)

lemma take_fault_faults [simp]: "faults (snd (take_fault s)) = tl (faults s)"
  by (simp add: take_fault_def split: list.splits)

lemma calls_sys_dup2: "calls (snd (sys_dup2 a b s)) = calls s @ [Sys_dup2 a b]"
  by (cases "take_fault (logged (Sys_dup2 a b) s)")
     (auto simp: sys_dup2_def logged_def take_fault_def split: list.splits option.splits bool.splits)

lemma faults_sys_dup2: "faults (snd (sys_dup2 a b s)) = tl (faults s)"
  by (cases "take_fault (logged (Sys_dup2 a b) s)")
     (auto simp: sys_dup2_def logged_def take_fault_def split: list.splits option.splits bool.splits)

lemma calls_sys_close: "calls (snd (sys_close d s)) = calls s @ [Sys_close d]"
  by (simp add: sys_close_def logged_def Let_def)

lemma faults_sys_close: "faults (snd (sys_close d s)) = faults s"
  by (simp add: sys_close_def logged_def Let_def)

lemma calls_ScopedFD_close:
  "calls (snd (ScopedFD_close h s)) = calls s @ (if 0 \<le> h then [Sys_close h] else [])"
  by (simp add: ScopedFD_close_def ScopedFD_defined_def calls_sys_close)

lemma fst_ScopedFD_close: "fst (ScopedFD_close h s) = (if 0 \<le> h then - 1 else h)"
  by (simp add: ScopedFD_close_def ScopedFD_defined_def ScopedFD_undefined_def)

lemma redirect_stdin_calls:
  "calls (snd (redirect_stdin r s)) =
     calls s @ (if 0 \<le> in_fd r then [Sys_dup2 (in_fd r) 0] else [])"
  by (simp add: redirect_stdin_def ScopedFD_defined_def Let_def calls_sys_dup2)

lemma redirect_stdin_obj:
  "fst (redirect_stdin r s) = r\<lparr>in_fd := (if 0 \<le> in_fd r \<and> in_fd r \<le> 2 then - 1 else in_fd r)\<rparr>"
  by (simp add: redirect_stdin_def ScopedFD_defined_def Let_def ScopedFD_release_def ScopedFD_undefined_def)

lemma redirect_stdout_calls:
  "calls (snd (redirect_stdout r s)) =
     calls s @ (if 0 \<le> out_fd r then [Sys_dup2 (out_fd r) 1] else [])
       @ (if 0 \<le> out_fd r \<and> \<not> 0 \<le> err_fd r \<and> combine_out_err r then [Sys_dup2 (out_fd r) 2] else [])"
  by (simp add: redirect_stdout_def ScopedFD_defined_def Let_def calls_sys_dup2)

lemma redirect_stdout_obj:
  "fst (redirect_stdout r s) = r\<lparr>out_fd := (if 0 \<le> out_fd r \<and> out_fd r \<le> 2 then - 1 else out_fd r)\<rparr>"
  by (simp add: redirect_stdout_def ScopedFD_defined_def Let_def ScopedFD_release_def ScopedFD_undefined_def)

lemma redirect_stderr_calls:
  "calls (snd (redirect_stderr r s)) =
     calls s @ (if 0 \<le> err_fd r then [Sys_dup2 (err_fd r) 2] else [])"
  by (simp add: redirect_stderr_def ScopedFD_defined_def Let_def calls_sys_dup2)

lemma redirect_stderr_obj:
  "fst (redirect_stderr r s) = r\<lparr>err_fd := (if 0 \<le> err_fd r \<and> err_fd r \<le> 2 then - 1 else err_fd r)\<rparr>"
  by (simp add: redirect_stderr_def ScopedFD_defined_def Let_def ScopedFD_release_def ScopedFD_undefined_def)

lemma RedirectStdFD_close_calls:
  "calls (snd (RedirectStdFD_close r s)) =
     calls s @ (if 0 \<le> in_fd r then [Sys_close (in_fd r)] else [])
       @ (if 0 \<le> out_fd r then [Sys_close (out_fd r)] else [])
       @ (if 0 \<le> err_fd r then [Sys_close (err_fd r)] else [])"
  by (simp add: RedirectStdFD_close_def split_def Let_def calls_ScopedFD_close)

lemma RedirectStdFD_close_obj:
  "fst (RedirectStdFD_close r s) =
     r\<lparr>in_fd := (if 0 \<le> in_fd r then - 1 else in_fd r),
       out_fd := (if 0 \<le> out_fd r then - 1 else out_fd r),
       err_fd := (if 0 \<le> err_fd r then - 1 else err_fd r)\<rparr>"
  by (simp add: RedirectStdFD_close_def split_def Let_def fst_ScopedFD_close)

lemma redirect_unfold:
  "redirect r s =
     RedirectStdFD_close
       (fst (redirect_stderr (fst (redirect_stdout (fst (redirect_stdin r s)) (snd (redirect_stdin r s))))
          (snd (redirect_stdout (fst (redirect_stdin r s)) (snd (redirect_stdin r s))))))
       (snd (redirect_stderr (fst (redirect_stdout (fst (redirect_stdin r s)) (snd (redirect_stdin r s))))
          (snd (redirect_stdout (fst (redirect_stdin r s)) (snd (redirect_stdin r s))))))"
  by (simp add: redirect_def split_def Let_def)

lemma redirect_calls:
  "calls (snd (redirect r s)) =
     calls s
     @ (if 0 \<le> in_fd r then [Sys_dup2 (in_fd r) 0] else [])
     @ (if 0 \<le> out_fd r then [Sys_dup2 (out_fd r) 1] else [])
     @ (if 0 \<le> out_fd r \<and> \<not> 0 \<le> err_fd r \<and> combine_out_err r
        then [Sys_dup2 (out_fd r) 2] else [])
     @ (if 0 \<le> err_fd r then [Sys_dup2 (err_fd r) 2] else [])
     @ (if 2 < in_fd r then [Sys_close (in_fd r)] else [])
     @ (if 2 < out_fd r then [Sys_close (out_fd r)] else [])
     @ (if 2 < err_fd r then [Sys_close (err_fd r)] else [])"
  unfolding redirect_unfold RedirectStdFD_close_calls redirect_stderr_calls redirect_stderr_obj
    redirect_stdout_calls redirect_stdout_obj redirect_stdin_calls redirect_stdin_obj
  by simp

lemma redirect_obj:
  "fst (redirect r s) =
     r\<lparr>in_fd := (if 0 \<le> in_fd r then - 1 else in_fd r),
       out_fd := (if 0 \<le> out_fd r then - 1 else out_fd r),
       err_fd := (if 0 \<le> err_fd r then - 1 else err_fd r)\<rparr>"
  unfolding redirect_unfold RedirectStdFD_close_obj redirect_stderr_obj
    redirect_stdout_obj redirect_stdin_obj
  by simp

subsection \<open>The descriptor table after an installation\<close>



lemma no_fault_failing: "True \<notin> set (faults s) \<Longrightarrow> \<not> failing s"
  by (cases "faults s") (auto simp: failing_def)












lemma handles_iff: "x \<in> handles r = (0 \<le> x \<and> (x = in_fd r \<or> x = out_fd r \<or> x = err_fd r))"
  by (auto simp: handles_def ScopedFD_defined_def)




section \<open>Installing the redirection\<close>



text \<open>
  C8. \<^verbatim>\<open>redirect\<close> has no error to report: the model of the \<^verbatim>\<open>noexcept\<close> function
  returns the object and the operating system and nothing else, whatever the state
  of the operating system is. Failures are swallowed: for any two states of the
  operating system \<open>s\<close> and \<open>s'\<close> (any script of failing calls, any descriptor table, so
  also one where no call fails and one where every call fails), the caller finds the
  same object afterwards, with its three handles undefined, and the installation has
  gone through the same calls, in the same order, to its end.
\<close>

theorem redirect_swallows_failures:
  "fst (redirect r s) = fst (redirect r s')
   \<and> drop (length (calls s)) (calls (snd (redirect r s)))
     = drop (length (calls s')) (calls (snd (redirect r s')))
   \<and> \<not> ScopedFD_defined (in_fd (fst (redirect r s)))
   \<and> \<not> ScopedFD_defined (out_fd (fst (redirect r s)))
   \<and> \<not> ScopedFD_defined (err_fd (fst (redirect r s)))"
  by (simp add: redirect_obj redirect_calls ScopedFD_defined_def)





section \<open>Constructing the pipe redirector\<close>

lemma lowest_free_ex: "\<exists>d \<in> set (map int [0..<Suc (length tab)]). d \<notin> fst ` set tab"
proof (rule ccontr)
  assume "\<not> ?thesis"
  then have sub: "set (map int [0..<Suc (length tab)]) \<subseteq> fst ` set tab"
    by blast
  have "distinct (map int [0..<Suc (length tab)])"
    by (simp add: distinct_map del: upt_Suc)
  then have "card (set (map int [0..<Suc (length tab)])) = length (map int [0..<Suc (length tab)])"
    by (rule distinct_card)
  then have "card (set (map int [0..<Suc (length tab)])) = Suc (length tab)"
    by (simp del: upt_Suc)
  moreover have "card (fst ` set tab) \<le> length tab"
    by (metis card_image_le card_length le_trans List.finite_set)
  moreover have "card (set (map int [0..<Suc (length tab)])) \<le> card (fst ` set tab)"
    using sub by (intro card_mono) auto
  ultimately show False by linarith
qed

lemma lowest_free_props:
  "lowest_free tab \<notin> fst ` set tab \<and> 0 \<le> lowest_free tab"
proof -
  let ?c = "filter (\<lambda>d. d \<notin> fst ` set tab) (map int [0..<Suc (length tab)])"
  from lowest_free_ex [of tab] have ne: "?c \<noteq> []"
    by (simp add: filter_empty_conv del: upt_Suc)
  then have "hd ?c \<in> set ?c"
    by (rule hd_in_set)
  then have "hd ?c \<notin> fst ` set tab \<and> hd ?c \<in> int ` set [0..<Suc (length tab)]"
    by (simp del: upt_Suc)
  then show ?thesis
    unfolding lowest_free_def by (auto simp del: upt_Suc)
qed

lemma lowest_free_nonneg [simp]: "0 \<le> lowest_free tab"
  using lowest_free_props by blast

lemma lowest_free_not_minus1 [simp]: "lowest_free tab \<noteq> - 1"
  using lowest_free_nonneg [of tab] by linarith


lemma take_fault_eq:
  "take_fault s = (failing s, s\<lparr>faults := tl (faults s)\<rparr>)"
  by (cases "faults s") (simp_all add: take_fault_def failing_def)

lemma make_pipe_cases:
  obtains (fail) s1 where "make_pipe s = (Inl PipeCreationError, s1)"
      "failing s" "faults s1 = tl (faults s)" "open_fds s1 = open_fds s"
      "npipes s1 = npipes s"
  | (ok) a b s1 where "make_pipe s = (Inr (a, b), s1)"
      "\<not> failing s" "faults s1 = tl (faults s)" "open_fds s1 = open_fds s \<union> {a, b}"
      "npipes s1 = Suc (npipes s)" "0 \<le> a" "0 \<le> b"
proof (cases "failing s")
  case True
  then show ?thesis
    by (intro fail [of "snd (make_pipe s)"])
       (simp_all add: make_pipe_def sys_pipe_def take_fault_eq logged_def failing_def open_fds_def)
next
  case False
  then show ?thesis
    by (intro ok [of "fst (the (fst (sys_pipe s)))" "snd (the (fst (sys_pipe s)))" "snd (make_pipe s)"])
       (auto simp add: make_pipe_def sys_pipe_def take_fault_eq logged_def failing_def open_fds_def Let_def)
qed

lemma cloexec_cases:
  assumes "d \<in> open_fds s"
  obtains (fail) s1 where "cloexec d s = (Inl CloexecError, s1)"
      "failing s" "faults s1 = tl (faults s)" "open_fds s1 = open_fds s"
      "npipes s1 = npipes s"
  | (ok) s1 where "cloexec d s = (Inr d, s1)"
      "\<not> failing s" "faults s1 = tl (faults s)" "open_fds s1 = open_fds s"
      "npipes s1 = npipes s"
proof (cases "failing s")
  case True
  then show ?thesis
    by (intro fail [of "snd (cloexec d s)"])
       (simp_all add: cloexec_def sys_fcntl_cloexec_def take_fault_eq logged_def failing_def open_fds_def)
next
  case False
  then show ?thesis using assms
    by (intro ok [of "snd (cloexec d s)"])
       (auto simp add: cloexec_def sys_fcntl_cloexec_def take_fault_eq logged_def failing_def open_fds_def Let_def)
qed

lemma sys_close_props:
  "open_fds (snd (sys_close d s)) = open_fds s - {d}"
  "npipes (snd (sys_close d s)) = npipes s"
  "faults (snd (sys_close d s)) = faults s"
  by (auto simp: sys_close_def logged_def open_fds_def Let_def image_iff)

lemma ScopedFD_close_props:
  "open_fds (snd (ScopedFD_close h s)) = (if 0 \<le> h then open_fds s - {h} else open_fds s)"
  "npipes (snd (ScopedFD_close h s)) = npipes s"
  "faults (snd (ScopedFD_close h s)) = faults s"
  by (simp_all add: ScopedFD_close_def ScopedFD_defined_def sys_close_props)

lemma ScopedFD_reset_props:
  "fst (ScopedFD_reset d h s) = d"
  "open_fds (snd (ScopedFD_reset d h s)) = (if 0 \<le> h then open_fds s - {h} else open_fds s)"
  "npipes (snd (ScopedFD_reset d h s)) = npipes s"
  "faults (snd (ScopedFD_reset d h s)) = faults s"
  by (simp_all add: ScopedFD_reset_def ScopedFD_close_props)

lemma sys_open_props:
  "0 \<le> fst (sys_open path flags s) \<or> fst (sys_open path flags s) = - 1"
  "(fst (sys_open path flags s) = - 1) = failing s"
  "open_fds (snd (sys_open path flags s)) =
     (if failing s then open_fds s else open_fds s \<union> {fst (sys_open path flags s)})"
  "npipes (snd (sys_open path flags s)) = npipes s"
  "faults (snd (sys_open path flags s)) = tl (faults s)"
  using lowest_free_nonneg [of "fdtab s"]
  by (auto simp: sys_open_def take_fault_eq logged_def open_fds_def Let_def failing_def
      split: bool.splits)


lemma first_failure_step:
  "first_failure (k # ks) fs =
     (if fs \<noteq> [] \<and> hd fs then Some (step_error k) else first_failure ks (tl fs))"
  by (cases fs; cases ks) simp_all

lemma ctor_stdout_cases:
  obtains (pipe_fail) c' where "ctor_stdout c = (Inl PipeCreationError, c')"
      "this c' = this c" "remote c' = remote c" "open_fds (sys c') = open_fds (sys c)"
      "npipes (sys c') = npipes (sys c)"
      "\<And>ks. first_failure (Create_pipe # Mark_cloexec # ks) (faults (sys c)) = Some PipeCreationError"
  | (cloexec_fail) c' where "ctor_stdout c = (Inl CloexecError, c')"
      "this c' = this c" "remote c' = remote c"
      "npipes (sys c') = Suc (npipes (sys c))"
      "\<And>ks. first_failure (Create_pipe # Mark_cloexec # ks) (faults (sys c)) = Some CloexecError"
  | (ok) c' p q where "ctor_stdout c = (Inr (), c')"
      "this c' = (this c)\<lparr>out_fd := p\<rparr>" "remote c' = (remote c)\<lparr>out_fd := q\<rparr>"
      "0 \<le> p" "0 \<le> q"
      "open_fds (sys c') \<subseteq> (open_fds (sys c) \<union> {p, q})
          - {h. 0 \<le> h \<and> h = out_fd (this c)} - {h. 0 \<le> h \<and> h = out_fd (remote c)}"
      "open_fds (sys c) - {out_fd (this c), out_fd (remote c)} \<subseteq> open_fds (sys c')"
      "npipes (sys c') = Suc (npipes (sys c))"
      "\<And>ks. first_failure (Create_pipe # Mark_cloexec # ks) (faults (sys c))
             = first_failure ks (faults (sys c'))"
proof (cases "sys c" rule: make_pipe_cases)
  case (fail s1)
  then show ?thesis
    by (intro pipe_fail [of "snd (ctor_stdout c)"])
       (simp_all add: ctor_stdout_def first_failure_step failing_def)
next
  case mp: (ok a b s1)
  then have "a \<in> open_fds s1" by simp
  then show ?thesis
  proof (cases a s1 rule: cloexec_cases)
    case (fail s2)
    with mp show ?thesis
      by (intro cloexec_fail [of "snd (ctor_stdout c)"])
         (auto simp add: ctor_stdout_def first_failure_step failing_def)
  next
    case ce: (ok s2)
    let ?c' = "snd (ctor_stdout c)"
    show ?thesis
    proof (rule ok [of ?c' a b])
      show "ctor_stdout c = (Inr (), ?c')"
        using mp ce by (simp add: ctor_stdout_def split_def Let_def)
      show "this ?c' = (this c)\<lparr>out_fd := a\<rparr>" "remote ?c' = (remote c)\<lparr>out_fd := b\<rparr>"
        using mp ce by (simp_all add: ctor_stdout_def split_def Let_def ScopedFD_reset_props)
      show "0 \<le> a" "0 \<le> b" using mp by simp_all
      show "npipes (sys ?c') = Suc (npipes (sys c))"
        using mp ce by (simp add: ctor_stdout_def split_def Let_def ScopedFD_reset_props)
      show "first_failure (Create_pipe # Mark_cloexec # ks) (faults (sys c))
             = first_failure ks (faults (sys ?c'))" for ks
        using mp ce
        by (auto simp add: ctor_stdout_def split_def Let_def ScopedFD_reset_props
            first_failure_step failing_def)
      have o: "open_fds (sys ?c') =
          (let o1 = (if 0 \<le> out_fd (this c) then open_fds s2 - {out_fd (this c)} else open_fds s2)
           in if 0 \<le> out_fd (remote c) then o1 - {out_fd (remote c)} else o1)"
        using mp ce by (simp add: ctor_stdout_def split_def Let_def ScopedFD_reset_props)
      show "open_fds (sys ?c') \<subseteq> (open_fds (sys c) \<union> {a, b})
          - {h. 0 \<le> h \<and> h = out_fd (this c)} - {h. 0 \<le> h \<and> h = out_fd (remote c)}"
        unfolding o using mp ce by (auto simp: Let_def)
      show "open_fds (sys c) - {out_fd (this c), out_fd (remote c)} \<subseteq> open_fds (sys ?c')"
        unfolding o using mp ce by (auto simp: Let_def)
    qed
  qed
qed

lemma ctor_stderr_cases:
  obtains (pipe_fail) c' where "ctor_stderr False c = (Inl PipeCreationError, c')"
      "this c' = (this c)\<lparr>combine_out_err := False\<rparr>" "remote c' = (remote c)\<lparr>combine_out_err := False\<rparr>" "open_fds (sys c') = open_fds (sys c)"
      "npipes (sys c') = npipes (sys c)"
      "\<And>ks. first_failure (Create_pipe # Mark_cloexec # ks) (faults (sys c)) = Some PipeCreationError"
  | (cloexec_fail) c' where "ctor_stderr False c = (Inl CloexecError, c')"
      "this c' = (this c)\<lparr>combine_out_err := False\<rparr>" "remote c' = (remote c)\<lparr>combine_out_err := False\<rparr>"
      "npipes (sys c') = Suc (npipes (sys c))"
      "\<And>ks. first_failure (Create_pipe # Mark_cloexec # ks) (faults (sys c)) = Some CloexecError"
  | (ok) c' p q where "ctor_stderr False c = (Inr (), c')"
      "this c' = ((this c)\<lparr>combine_out_err := False\<rparr>)\<lparr>err_fd := p\<rparr>" "remote c' = ((remote c)\<lparr>combine_out_err := False\<rparr>)\<lparr>err_fd := q\<rparr>"
      "0 \<le> p" "0 \<le> q"
      "open_fds (sys c') \<subseteq> (open_fds (sys c) \<union> {p, q})
          - {h. 0 \<le> h \<and> h = err_fd (this c)} - {h. 0 \<le> h \<and> h = err_fd (remote c)}"
      "open_fds (sys c) - {err_fd (this c), err_fd (remote c)} \<subseteq> open_fds (sys c')"
      "npipes (sys c') = Suc (npipes (sys c))"
      "\<And>ks. first_failure (Create_pipe # Mark_cloexec # ks) (faults (sys c))
             = first_failure ks (faults (sys c'))"
proof (cases "sys c" rule: make_pipe_cases)
  case (fail s1)
  then show ?thesis
    by (intro pipe_fail [of "snd (ctor_stderr False c)"])
       (simp_all add: ctor_stderr_def first_failure_step failing_def)
next
  case mp: (ok a b s1)
  then have "a \<in> open_fds s1" by simp
  then show ?thesis
  proof (cases a s1 rule: cloexec_cases)
    case (fail s2)
    with mp show ?thesis
      by (intro cloexec_fail [of "snd (ctor_stderr False c)"])
         (auto simp add: ctor_stderr_def first_failure_step failing_def)
  next
    case ce: (ok s2)
    let ?c' = "snd (ctor_stderr False c)"
    show ?thesis
    proof (rule ok [of ?c' a b])
      show "ctor_stderr False c = (Inr (), ?c')"
        using mp ce by (simp add: ctor_stderr_def split_def Let_def)
      show "this ?c' = ((this c)\<lparr>combine_out_err := False\<rparr>)\<lparr>err_fd := a\<rparr>" "remote ?c' = ((remote c)\<lparr>combine_out_err := False\<rparr>)\<lparr>err_fd := b\<rparr>"
        using mp ce by (simp_all add: ctor_stderr_def split_def Let_def ScopedFD_reset_props)
      show "0 \<le> a" "0 \<le> b" using mp by simp_all
      show "npipes (sys ?c') = Suc (npipes (sys c))"
        using mp ce by (simp add: ctor_stderr_def split_def Let_def ScopedFD_reset_props)
      show "first_failure (Create_pipe # Mark_cloexec # ks) (faults (sys c))
             = first_failure ks (faults (sys ?c'))" for ks
        using mp ce
        by (auto simp add: ctor_stderr_def split_def Let_def ScopedFD_reset_props
            first_failure_step failing_def)
      have o: "open_fds (sys ?c') =
          (let o1 = (if 0 \<le> err_fd (this c) then open_fds s2 - {err_fd (this c)} else open_fds s2)
           in if 0 \<le> err_fd (remote c) then o1 - {err_fd (remote c)} else o1)"
        using mp ce by (simp add: ctor_stderr_def split_def Let_def ScopedFD_reset_props)
      show "open_fds (sys ?c') \<subseteq> (open_fds (sys c) \<union> {a, b})
          - {h. 0 \<le> h \<and> h = err_fd (this c)} - {h. 0 \<le> h \<and> h = err_fd (remote c)}"
        unfolding o using mp ce by (auto simp: Let_def)
      show "open_fds (sys c) - {err_fd (this c), err_fd (remote c)} \<subseteq> open_fds (sys ?c')"
        unfolding o using mp ce by (auto simp: Let_def)
    qed
  qed
qed

lemma ctor_stderr_combined:
  "ctor_stderr True c =
     (Inr (), c\<lparr>this := (this c)\<lparr>combine_out_err := True\<rparr>,
                remote := (remote c)\<lparr>combine_out_err := True\<rparr>\<rparr>)"
  by (simp add: ctor_stderr_def Let_def)

lemma ctor_stdin_cases:
  obtains (pipe_fail) c' where "ctor_stdin True c = (Inl PipeCreationError, c')"
      "this c' = this c" "remote c' = remote c" "open_fds (sys c') = open_fds (sys c)"
      "npipes (sys c') = npipes (sys c)"
      "\<And>ks. first_failure (Create_pipe # Mark_cloexec # ks) (faults (sys c)) = Some PipeCreationError"
  | (cloexec_fail) c' where "ctor_stdin True c = (Inl CloexecError, c')"
      "this c' = this c" "remote c' = remote c"
      "npipes (sys c') = Suc (npipes (sys c))"
      "\<And>ks. first_failure (Create_pipe # Mark_cloexec # ks) (faults (sys c)) = Some CloexecError"
  | (ok) c' p q where "ctor_stdin True c = (Inr (), c')"
      "this c' = (this c)\<lparr>in_fd := p\<rparr>" "remote c' = (remote c)\<lparr>in_fd := q\<rparr>"
      "0 \<le> p" "0 \<le> q"
      "open_fds (sys c') \<subseteq> (open_fds (sys c) \<union> {p, q})
          - {h. 0 \<le> h \<and> h = in_fd (this c)} - {h. 0 \<le> h \<and> h = in_fd (remote c)}"
      "open_fds (sys c) - {in_fd (this c), in_fd (remote c)} \<subseteq> open_fds (sys c')"
      "npipes (sys c') = Suc (npipes (sys c))"
      "\<And>ks. first_failure (Create_pipe # Mark_cloexec # ks) (faults (sys c))
             = first_failure ks (faults (sys c'))"
proof (cases "sys c" rule: make_pipe_cases)
  case (fail s1)
  then show ?thesis
    by (intro pipe_fail [of "snd (ctor_stdin True c)"])
       (simp_all add: ctor_stdin_def first_failure_step failing_def)
next
  case mp: (ok a b s1)
  then have "b \<in> open_fds s1" by simp
  then show ?thesis
  proof (cases b s1 rule: cloexec_cases)
    case (fail s2)
    with mp show ?thesis
      by (intro cloexec_fail [of "snd (ctor_stdin True c)"])
         (auto simp add: ctor_stdin_def first_failure_step failing_def)
  next
    case ce: (ok s2)
    let ?c' = "snd (ctor_stdin True c)"
    show ?thesis
    proof (rule ok [of ?c' b a])
      show "ctor_stdin True c = (Inr (), ?c')"
        using mp ce by (simp add: ctor_stdin_def split_def Let_def)
      show "this ?c' = (this c)\<lparr>in_fd := b\<rparr>" "remote ?c' = (remote c)\<lparr>in_fd := a\<rparr>"
        using mp ce by (simp_all add: ctor_stdin_def split_def Let_def ScopedFD_reset_props)
      show "0 \<le> b" "0 \<le> a" using mp by simp_all
      show "npipes (sys ?c') = Suc (npipes (sys c))"
        using mp ce by (simp add: ctor_stdin_def split_def Let_def ScopedFD_reset_props)
      show "first_failure (Create_pipe # Mark_cloexec # ks) (faults (sys c))
             = first_failure ks (faults (sys ?c'))" for ks
        using mp ce
        by (auto simp add: ctor_stdin_def split_def Let_def ScopedFD_reset_props
            first_failure_step failing_def)
      have o: "open_fds (sys ?c') =
          (let o1 = (if 0 \<le> in_fd (this c) then open_fds s2 - {in_fd (this c)} else open_fds s2)
           in if 0 \<le> in_fd (remote c) then o1 - {in_fd (remote c)} else o1)"
        using mp ce by (simp add: ctor_stdin_def split_def Let_def ScopedFD_reset_props)
      show "open_fds (sys ?c') \<subseteq> (open_fds (sys c) \<union> {b, a})
          - {h. 0 \<le> h \<and> h = in_fd (this c)} - {h. 0 \<le> h \<and> h = in_fd (remote c)}"
        unfolding o using mp ce by (auto simp: Let_def)
      show "open_fds (sys c) - {in_fd (this c), in_fd (remote c)} \<subseteq> open_fds (sys ?c')"
        unfolding o using mp ce by (auto simp: Let_def)
    qed
  qed
qed

lemma map_of_append_fresh:
  "d \<notin> fst ` set tab \<Longrightarrow> map_of (tab @ [(d, v)]) d = Some v"
  by (induction tab) auto

lemma map_of_filter_other:
  "h \<noteq> d \<Longrightarrow> map_of (filter (\<lambda>e. fst e \<noteq> h) tab) d = map_of tab d"
  by (induction tab) auto

lemma fd_file_sys_close:
  "h \<noteq> d \<Longrightarrow> fd_file (snd (sys_close h s)) d = fd_file s d"
  by (simp add: sys_close_def logged_def Let_def fd_file_def map_of_filter_other)

lemma fd_file_ScopedFD_reset:
  "h \<noteq> d \<Longrightarrow> fd_file (snd (ScopedFD_reset x h s)) d = fd_file s d"
  by (simp add: ScopedFD_reset_def ScopedFD_close_def fd_file_sys_close)

lemma failing_logged: "failing (logged c s) = failing s"
  by (simp add: failing_def logged_def)

lemma sys_open_ok:
  "\<not> failing s \<Longrightarrow>
     fst (sys_open path flags s) = lowest_free (fdtab s)
     \<and> fdtab (snd (sys_open path flags s)) = fdtab s @ [(lowest_free (fdtab s), Path path flags)]"
  by (simp add: sys_open_def take_fault_eq failing_logged Let_def) (simp add: logged_def)

lemma ctor_stdin_null_cases:
  obtains (open_fail) c' where "ctor_stdin False c = (Inl OpenError, c')"
      "this c' = this c" "remote c' = (remote c)\<lparr>in_fd := - 1\<rparr>"
      "open_fds (sys c') = open_fds (sys c) - {h. 0 \<le> h \<and> h = in_fd (remote c)}"
      "npipes (sys c') = npipes (sys c)"
      "\<And>ks. first_failure (Open_null # ks) (faults (sys c)) = Some OpenError"
  | (ok) c' d where "ctor_stdin False c = (Inr (), c')"
      "this c' = this c" "remote c' = (remote c)\<lparr>in_fd := d\<rparr>" "0 \<le> d"
      "open_fds (sys c') \<subseteq> (open_fds (sys c) \<union> {d}) - {h. 0 \<le> h \<and> h = in_fd (remote c)}"
      "npipes (sys c') = npipes (sys c)"
      "\<And>ks. first_failure (Open_null # ks) (faults (sys c)) = first_failure ks (faults (sys c'))"
      "in_fd (remote c) < 0 \<or> in_fd (remote c) \<in> open_fds (sys c)
         \<Longrightarrow> fd_file (sys c') d = Some (Path ''/dev/null'' O_RDONLY)"
proof (cases "failing (sys c)")
  case True
  then have d: "fst (sys_open ''/dev/null'' O_RDONLY (sys c)) = - 1"
    by (simp add: sys_open_props)
  show ?thesis
  proof (rule open_fail [of "snd (ctor_stdin False c)"])
    show "ctor_stdin False c = (Inl OpenError, snd (ctor_stdin False c))"
      using d by (simp add: ctor_stdin_def split_def Let_def ScopedFD_reset_props ScopedFD_defined_def)
    show "this (snd (ctor_stdin False c)) = this c"
      "remote (snd (ctor_stdin False c)) = (remote c)\<lparr>in_fd := - 1\<rparr>"
      "npipes (sys (snd (ctor_stdin False c))) = npipes (sys c)"
      using d by (simp_all add: ctor_stdin_def split_def Let_def ScopedFD_reset_props
          ScopedFD_defined_def sys_open_props)
    show "open_fds (sys (snd (ctor_stdin False c)))
            = open_fds (sys c) - {h. 0 \<le> h \<and> h = in_fd (remote c)}"
      using d True by (auto simp add: ctor_stdin_def split_def Let_def ScopedFD_reset_props
          ScopedFD_defined_def sys_open_props)
    show "first_failure (Open_null # ks) (faults (sys c)) = Some OpenError" for ks
      using True by (simp add: first_failure_step failing_def)
  qed
next
  case False
  let ?d = "fst (sys_open ''/dev/null'' O_RDONLY (sys c))"
  let ?c' = "snd (ctor_stdin False c)"
  from False have d: "0 \<le> ?d"
    using sys_open_props(1,2) [of "''/dev/null''" O_RDONLY "sys c"] by auto
  have dl: "?d = lowest_free (fdtab (sys c))"
    using False by (simp add: sys_open_ok)
  show ?thesis
  proof (rule ok [of ?c' ?d])
    show "ctor_stdin False c = (Inr (), ?c')"
      using d by (simp add: ctor_stdin_def split_def Let_def ScopedFD_reset_props ScopedFD_defined_def)
    show "this ?c' = this c" "remote ?c' = (remote c)\<lparr>in_fd := ?d\<rparr>"
      "npipes (sys ?c') = npipes (sys c)"
      using d by (simp_all add: ctor_stdin_def split_def Let_def ScopedFD_reset_props
          ScopedFD_defined_def sys_open_props)
    show "0 \<le> ?d" by (rule d)
    show "open_fds (sys ?c') \<subseteq> (open_fds (sys c) \<union> {?d}) - {h. 0 \<le> h \<and> h = in_fd (remote c)}"
      using d False by (auto simp add: ctor_stdin_def split_def Let_def ScopedFD_reset_props
          ScopedFD_defined_def sys_open_props)
    show "first_failure (Open_null # ks) (faults (sys c)) = first_failure ks (faults (sys ?c'))" for ks
      using d False by (auto simp add: ctor_stdin_def split_def Let_def ScopedFD_reset_props
          ScopedFD_defined_def sys_open_props first_failure_step failing_def)
    show "fd_file (sys ?c') ?d = Some (Path ''/dev/null'' O_RDONLY)"
      if "in_fd (remote c) < 0 \<or> in_fd (remote c) \<in> open_fds (sys c)"
    proof -
      have fresh: "?d \<notin> fst ` set (fdtab (sys c))"
        unfolding dl using lowest_free_props by blast
      then have ne: "in_fd (remote c) \<noteq> ?d"
        using that d by (force simp: open_fds_def)
      have s1: "fdtab (snd (sys_open ''/dev/null'' O_RDONLY (sys c)))
                = fdtab (sys c) @ [(?d, Path ''/dev/null'' O_RDONLY)]"
        using False by (simp add: sys_open_ok)
      have "fd_file (sys ?c') ?d = fd_file (snd (sys_open ''/dev/null'' O_RDONLY (sys c))) ?d"
        using ne by (simp add: ctor_stdin_def split_def Let_def fd_file_ScopedFD_reset)
      also have "\<dots> = Some (Path ''/dev/null'' O_RDONLY)"
        using fresh unfolding fd_file_def s1 by (rule map_of_append_fresh)
      finally show ?thesis .
    qed
  qed
qed





lemma handles_combine [simp]: "handles (r\<lparr>combine_out_err := b\<rparr>) = handles r"
  by (simp add: handles_def)






lemma ctor_stdout_summary:
  assumes "ctor_stdout c = (res, c')"
  shows "first_failure ([Create_pipe, Mark_cloexec] @ ks) (faults (sys c))
          = (case res of Inl e \<Rightarrow> Some e | Inr _ \<Rightarrow> first_failure ks (faults (sys c')))
    \<and> npipes (sys c') \<le> npipes (sys c) + 1
    \<and> (res = Inr () \<longrightarrow> npipes (sys c') = npipes (sys c) + 1)
    \<and> in_fd (this c') = in_fd (this c) \<and> err_fd (this c') = err_fd (this c)
    \<and> (res = Inr () \<longrightarrow> in_fd (remote c') = in_fd (remote c) \<and> err_fd (remote c') = err_fd (remote c))
    \<and> (res = Inr () \<longrightarrow> open_fds (sys c) - {out_fd (this c), out_fd (remote c)} \<subseteq> open_fds (sys c'))
    \<and> (res = Inr () \<longrightarrow> 0 \<le> out_fd (this c'))"
proof (cases c rule: ctor_stdout_cases)
  case (pipe_fail c1)
  with assms have r: "res = Inl PipeCreationError" "c' = c1" by simp_all
  show ?thesis unfolding r using pipe_fail by simp
next
  case (cloexec_fail c1)
  with assms have r: "res = Inl CloexecError" "c' = c1" by simp_all
  show ?thesis unfolding r using cloexec_fail by simp
next
  case (ok c1 p q)
  with assms have r: "res = Inr ()" "c' = c1" by simp_all
  show ?thesis unfolding r using ok by simp
qed

lemma ctor_stderr_summary:
  assumes "ctor_stderr cmb c = (res, c')"
  shows "first_failure ((if cmb then [] else [Create_pipe, Mark_cloexec]) @ ks) (faults (sys c))
          = (case res of Inl e \<Rightarrow> Some e | Inr _ \<Rightarrow> first_failure ks (faults (sys c')))
    \<and> npipes (sys c') \<le> npipes (sys c) + (if cmb then 0 else 1)
    \<and> (res = Inr () \<longrightarrow> npipes (sys c') = npipes (sys c) + (if cmb then 0 else 1))
    \<and> in_fd (this c') = in_fd (this c) \<and> out_fd (this c') = out_fd (this c)
    \<and> (res = Inr () \<longrightarrow> in_fd (remote c') = in_fd (remote c) \<and> out_fd (remote c') = out_fd (remote c))
    \<and> (res = Inr () \<longrightarrow> open_fds (sys c) - {err_fd (this c), err_fd (remote c)} \<subseteq> open_fds (sys c'))
    \<and> (cmb \<longrightarrow> err_fd (this c') = err_fd (this c))
    \<and> (res = Inr () \<longrightarrow> \<not> cmb \<longrightarrow> 0 \<le> err_fd (this c'))
    \<and> (res = Inr () \<longrightarrow> combine_out_err (this c') = cmb \<and> combine_out_err (remote c') = cmb)"
proof (cases cmb)
  case True
  with assms show ?thesis by (auto simp: ctor_stderr_combined)
next
  case False
  show ?thesis
  proof (cases c rule: ctor_stderr_cases)
    case (pipe_fail c1)
    with assms False have r: "res = Inl PipeCreationError" "c' = c1" by simp_all
    show ?thesis unfolding r using pipe_fail False by simp
  next
    case (cloexec_fail c1)
    with assms False have r: "res = Inl CloexecError" "c' = c1" by simp_all
    show ?thesis unfolding r using cloexec_fail False by simp
  next
    case (ok c1 p q)
    with assms False have r: "res = Inr ()" "c' = c1" by simp_all
    show ?thesis unfolding r using ok False by simp
  qed
qed

lemma ctor_stdin_summary:
  assumes "ctor_stdin en c = (res, c')"
  shows "first_failure ((if en then [Create_pipe, Mark_cloexec] else [Open_null]) @ ks) (faults (sys c))
          = (case res of Inl e \<Rightarrow> Some e | Inr _ \<Rightarrow> first_failure ks (faults (sys c')))
    \<and> npipes (sys c') \<le> npipes (sys c) + (if en then 1 else 0)
    \<and> (res = Inr () \<longrightarrow> npipes (sys c') = npipes (sys c) + (if en then 1 else 0))
    \<and> out_fd (this c') = out_fd (this c) \<and> err_fd (this c') = err_fd (this c)
    \<and> combine_out_err (this c') = combine_out_err (this c)
    \<and> combine_out_err (remote c') = combine_out_err (remote c)
    \<and> (\<not> en \<longrightarrow> in_fd (this c') = in_fd (this c))
    \<and> (res = Inr () \<longrightarrow> en \<longrightarrow> 0 \<le> in_fd (this c'))
    \<and> (res = Inr () \<longrightarrow> 0 \<le> in_fd (remote c'))
    \<and> (res = Inr () \<longrightarrow> \<not> en \<longrightarrow> in_fd (remote c) < 0 \<or> in_fd (remote c) \<in> open_fds (sys c) \<longrightarrow>
           fd_file (sys c') (in_fd (remote c')) = Some (Path ''/dev/null'' O_RDONLY))"
proof (cases en)
  case True
  show ?thesis
  proof (cases c rule: ctor_stdin_cases)
    case (pipe_fail c1)
    with assms True have r: "res = Inl PipeCreationError" "c' = c1" by simp_all
    show ?thesis unfolding r using pipe_fail True by simp
  next
    case (cloexec_fail c1)
    with assms True have r: "res = Inl CloexecError" "c' = c1" by simp_all
    show ?thesis unfolding r using cloexec_fail True by simp
  next
    case (ok c1 p q)
    with assms True have r: "res = Inr ()" "c' = c1" by simp_all
    show ?thesis unfolding r using ok True by simp
  qed
next
  case False
  show ?thesis
  proof (cases c rule: ctor_stdin_null_cases)
    case (open_fail c1)
    with assms False have r: "res = Inl OpenError" "c' = c1" by simp_all
    show ?thesis unfolding r using open_fail False by simp
  next
    case (ok c1 d)
    with assms False have r: "res = Inr ()" "c' = c1" by simp_all
    show ?thesis unfolding r using ok False by simp
  qed
qed



lemma ctor_steps_eq:
  "ctor_steps cmb en =
     [Create_pipe, Mark_cloexec]
     @ ((if cmb then [] else [Create_pipe, Mark_cloexec])
        @ ((if en then [Create_pipe, Mark_cloexec] else [Open_null]) @ []))"
  by (simp add: ctor_steps_def)

lemma first_failure_Nil [simp]: "first_failure [] fs = None"
  by simp

lemma RedirectPipe_body_summary:
  assumes body: "RedirectPipe_body cmb en c = (res, c')"
  shows "(case res of Inl e \<Rightarrow> Some e | Inr _ \<Rightarrow> None)
           = first_failure (ctor_steps cmb en) (faults (sys c))
    \<and> npipes (sys c') \<le> npipes (sys c) + 1 + (if cmb then 0 else 1) + (if en then 1 else 0)
    \<and> (res = Inr () \<longrightarrow>
         npipes (sys c') = npipes (sys c) + 1 + (if cmb then 0 else 1) + (if en then 1 else 0))
    \<and> (cmb \<longrightarrow> err_fd (this c') = err_fd (this c))
    \<and> (\<not> en \<longrightarrow> in_fd (this c') = in_fd (this c))
    \<and> (res = Inr () \<longrightarrow> 0 \<le> out_fd (this c') \<and> (en \<longrightarrow> 0 \<le> in_fd (this c'))
          \<and> (\<not> cmb \<longrightarrow> 0 \<le> err_fd (this c'))
          \<and> combine_out_err (this c') = cmb \<and> combine_out_err (remote c') = cmb
          \<and> 0 \<le> in_fd (remote c'))
    \<and> (res = Inr () \<longrightarrow> \<not> en \<longrightarrow>
         (in_fd (remote c) < 0
          \<or> in_fd (remote c) \<in> open_fds (sys c)
              - {out_fd (this c), out_fd (remote c), err_fd (this c), err_fd (remote c)}) \<longrightarrow>
         fd_file (sys c') (in_fd (remote c')) = Some (Path ''/dev/null'' O_RDONLY))"
proof -
  obtain r1 c1 where s1: "ctor_stdout c = (r1, c1)" by force
  note f1 = ctor_stdout_summary [OF s1, of "(if cmb then [] else [Create_pipe, Mark_cloexec])
        @ ((if en then [Create_pipe, Mark_cloexec] else [Open_null]) @ [])"]
  show ?thesis
  proof (cases r1)
    case (Inl e)
    with body s1 have "res = Inl e" "c' = c1" by (simp_all add: RedirectPipe_body_def)
    with f1 Inl show ?thesis unfolding ctor_steps_eq by simp
  next
    case r1: (Inr u)
    obtain r2 c2 where s2: "ctor_stderr cmb c1 = (r2, c2)" by force
    note f2 = ctor_stderr_summary [OF s2, of "(if en then [Create_pipe, Mark_cloexec] else [Open_null]) @ []"]
    show ?thesis
    proof (cases r2)
      case (Inl e)
      with body s1 r1 s2 have "res = Inl e" "c' = c2" by (simp_all add: RedirectPipe_body_def)
      with f1 f2 r1 Inl show ?thesis unfolding ctor_steps_eq by simp
    next
      case r2: (Inr v)
      from body s1 r1 s2 r2 have s3: "ctor_stdin en c2 = (res, c')"
        by (simp add: RedirectPipe_body_def)
      note f3 = ctor_stdin_summary [OF s3, of "[]"]
      have ff: "(case res of Inl e \<Rightarrow> Some e | Inr _ \<Rightarrow> None)
           = first_failure (ctor_steps cmb en) (faults (sys c))"
        unfolding ctor_steps_eq using f1 f2 f3 r1 r2 by (simp split: sum.splits)
      have np: "npipes (sys c') \<le> npipes (sys c) + 1 + (if cmb then 0 else 1) + (if en then 1 else 0)"
        "res = Inr () \<longrightarrow>
         npipes (sys c') = npipes (sys c) + 1 + (if cmb then 0 else 1) + (if en then 1 else 0)"
        using f1 f2 f3 r1 r2 by auto
      have fl: "cmb \<longrightarrow> err_fd (this c') = err_fd (this c)"
        "\<not> en \<longrightarrow> in_fd (this c') = in_fd (this c)"
        "res = Inr () \<longrightarrow> 0 \<le> out_fd (this c') \<and> (en \<longrightarrow> 0 \<le> in_fd (this c'))
          \<and> (\<not> cmb \<longrightarrow> 0 \<le> err_fd (this c'))
          \<and> combine_out_err (this c') = cmb \<and> combine_out_err (remote c') = cmb
          \<and> 0 \<le> in_fd (remote c')"
        using f1 f2 f3 r1 r2 by auto
      have nl: "fd_file (sys c') (in_fd (remote c')) = Some (Path ''/dev/null'' O_RDONLY)"
        if "res = Inr ()" "\<not> en"
          "in_fd (remote c) < 0
          \<or> in_fd (remote c) \<in> open_fds (sys c)
              - {out_fd (this c), out_fd (remote c), err_fd (this c), err_fd (remote c)}"
      proof -
        have "in_fd (remote c2) = in_fd (remote c)"
          using f1 f2 r1 r2 by simp
        moreover have "in_fd (remote c) < 0 \<or> in_fd (remote c) \<in> open_fds (sys c2)"
          using that(3) f1 f2 r1 r2 by auto
        ultimately show ?thesis
          using f3 that(1,2) by simp
      qed
      show ?thesis using ff np fl nl by blast
    qed
  qed
qed


lemma RedirectStdFD_destroy_props:
  "open_fds (RedirectStdFD_destroy r s) = open_fds s - handles r"
  "npipes (RedirectStdFD_destroy r s) = npipes s"
  by (auto simp: RedirectStdFD_destroy_def ScopedFD_close_props handles_iff)

lemma handles_new [simp]: "handles RedirectStdFD_new = {}"
  by (simp add: handles_def RedirectStdFD_new_def ScopedFD_defined_def ScopedFD_undefined_def)

lemma RedirectPipe_cases:
  obtains (thrown) e c where
      "RedirectPipe_body cmb en \<lparr>this = RedirectStdFD_new, remote = remote_arg, sys = s\<rparr> = (Inl e, c)"
      "RedirectPipe remote_arg cmb en s = (Inl e, remote c, RedirectStdFD_destroy (this c) (sys c))"
  | (built) c where
      "RedirectPipe_body cmb en \<lparr>this = RedirectStdFD_new, remote = remote_arg, sys = s\<rparr> = (Inr (), c)"
      "RedirectPipe remote_arg cmb en s = (Inr (this c), remote c, sys c)"
proof -
  obtain res c where b:
    "RedirectPipe_body cmb en \<lparr>this = RedirectStdFD_new, remote = remote_arg, sys = s\<rparr> = (res, c)"
    by force
  show ?thesis
  proof (cases res)
    case (Inl e)
    with b show ?thesis by (intro thrown [of e c]) (simp_all add: RedirectPipe_def)
  next
    case (Inr u)
    with b show ?thesis by (intro built [of c]) (simp_all add: RedirectPipe_def)
  qed
qed






















text \<open>
  C7. With \<open>enable_in = false\<close> the constructor creates the pipe for the output and,
  unless output and error are combined, the pipe for the error stream, and no third
  pipe. When it succeeds, the \<open>in\<close> handle of the new object is undefined, the \<open>in\<close>
  handle of \<^verbatim>\<open>remote\<close> is defined, and (when the \<open>in\<close> handle that \<^verbatim>\<open>remote\<close> had
  before was undefined or owned an open descriptor of its own) its descriptor refers
  to \<^verbatim>\<open>/dev/null\<close> opened with \<^verbatim>\<open>O_RDONLY\<close>, the null device, which is at its end
  at once when read.
\<close>

theorem RedirectPipe_without_input:
  assumes "RedirectPipe remote_arg cmb False s = (res, remote', s')"
  shows "npipes s' \<le> npipes s + (if cmb then 1 else 2)
    \<and> (\<forall>self. res = Inr self \<longrightarrow>
          \<not> ScopedFD_defined (in_fd self)
          \<and> npipes s' = npipes s + (if cmb then 1 else 2)
          \<and> ScopedFD_defined (in_fd remote')
          \<and> ((\<not> ScopedFD_defined (in_fd remote_arg)
               \<or> in_fd remote_arg \<in> open_fds s - {out_fd remote_arg, err_fd remote_arg}) \<longrightarrow>
              fd_file s' (in_fd remote') = Some (Path ''/dev/null'' O_RDONLY)))"
proof (cases remote_arg cmb False s rule: RedirectPipe_cases)
  case (thrown e c)
  with assms have r: "res = Inl e" "s' = RedirectStdFD_destroy (this c) (sys c)" by simp_all
  show ?thesis
    unfolding r using RedirectPipe_body_summary [OF thrown(1)]
    by (auto simp: RedirectStdFD_destroy_props)
next
  case (built c)
  with assms have r: "res = Inr (this c)" "remote' = remote c" "s' = sys c" by simp_all
  show ?thesis
    unfolding r using RedirectPipe_body_summary [OF built(1)]
    by (auto simp: ScopedFD_defined_def RedirectStdFD_new_def ScopedFD_undefined_def)
qed

lemma RedirectPipe_combined_ctor:
  assumes "RedirectPipe remote_arg True en s = (res, remote', s')"
  shows "npipes s' \<le> npipes s + (if en then 2 else 1)
    \<and> (\<forall>self. res = Inr self \<longrightarrow>
          \<not> ScopedFD_defined (err_fd self)
          \<and> npipes s' = npipes s + (if en then 2 else 1))"
proof (cases remote_arg True en s rule: RedirectPipe_cases)
  case (thrown e c)
  with assms have r: "res = Inl e" "s' = RedirectStdFD_destroy (this c) (sys c)" by simp_all
  show ?thesis
    unfolding r using RedirectPipe_body_summary [OF thrown(1)]
    by (auto simp: RedirectStdFD_destroy_props)
next
  case (built c)
  with assms have r: "res = Inr (this c)" "remote' = remote c" "s' = sys c" by simp_all
  show ?thesis
    unfolding r using RedirectPipe_body_summary [OF built(1)]
    by (auto simp: ScopedFD_defined_def RedirectStdFD_new_def ScopedFD_undefined_def)
qed

lemma RedirectPipe_with_input_handles:
  assumes "RedirectPipe remote_arg cmb True s = (Inr self, remote', s')"
  shows "ScopedFD_defined (in_fd self) \<and> ScopedFD_defined (out_fd self)"
proof (cases remote_arg cmb True s rule: RedirectPipe_cases)
  case (thrown e c)
  with assms show ?thesis by simp
next
  case (built c)
  with assms have r: "self = this c" by simp
  show ?thesis
    unfolding r using RedirectPipe_body_summary [OF built(1)]
    by (simp add: ScopedFD_defined_def)
qed


lemma RedirectPipe_cloexec_fails:
  "RedirectPipe RedirectStdFD_new False True (os_failing [False, True]) =
     (Inl CloexecError,
      \<lparr>in_fd = - 1, out_fd = - 1, err_fd = - 1, combine_out_err = False\<rparr>,
      \<lparr>fdtab = [(0, Path ''/dev/tty'' 2), (1, Path ''/dev/tty'' 2), (2, Path ''/dev/tty'' 2),
                (3, Pipe_read 0), (4, Pipe_write 0)],
       cloexec_set = [], npipes = 1, faults = [],
       calls = [Sys_pipe, Sys_fcntl 3]\<rparr>)"
  by (simp add: RedirectPipe_def RedirectPipe_body_def ctor_stdout_def ctor_stderr_def
      ctor_stdin_def make_pipe_def cloexec_def sys_pipe_def sys_fcntl_cloexec_def
      take_fault_def logged_def lowest_free_def open_fds_def os_failing_def os_std_def
      RedirectStdFD_new_def RedirectStdFD_destroy_def ScopedFD_reset_def ScopedFD_close_def
      ScopedFD_defined_def ScopedFD_undefined_def sys_close_def PipeCreationError_def
      CloexecError_def Let_def)


lemma RedirectPipe_null_input:
  "RedirectPipe RedirectStdFD_new True False os_std =
     (Inr \<lparr>in_fd = - 1, out_fd = 3, err_fd = - 1, combine_out_err = True\<rparr>,
      \<lparr>in_fd = 5, out_fd = 4, err_fd = - 1, combine_out_err = True\<rparr>,
      \<lparr>fdtab = [(0, Path ''/dev/tty'' 2), (1, Path ''/dev/tty'' 2), (2, Path ''/dev/tty'' 2),
                (3, Pipe_read 0), (4, Pipe_write 0), (5, Path ''/dev/null'' 0)],
       cloexec_set = [3], npipes = 1, faults = [],
       calls = [Sys_pipe, Sys_fcntl 3, Sys_open ''/dev/null'' 0]\<rparr>)"
  by (simp add: RedirectPipe_def RedirectPipe_body_def ctor_stdout_def ctor_stderr_def
      ctor_stdin_def make_pipe_def cloexec_def sys_pipe_def sys_fcntl_cloexec_def sys_open_def
      take_fault_def logged_def lowest_free_def open_fds_def os_std_def O_RDONLY_def
      RedirectStdFD_new_def RedirectStdFD_destroy_def ScopedFD_reset_def ScopedFD_close_def
      ScopedFD_defined_def ScopedFD_undefined_def sys_close_def PipeCreationError_def
      CloexecError_def Let_def)



text \<open>
  The theorem for C7 at a construction with combined output and no input, in a
  process with its three standard descriptors open.
\<close>

theorem RedirectPipe_without_input_witness:
  "npipes (snd (snd (RedirectPipe RedirectStdFD_new True False os_std))) = 1
   \<and> fd_file (snd (snd (RedirectPipe RedirectStdFD_new True False os_std))) 5
       = Some (Path ''/dev/null'' O_RDONLY)
   \<and> \<not> ScopedFD_defined (in_fd \<lparr>in_fd = - 1, out_fd = 3, err_fd = - 1, combine_out_err = True\<rparr>)"
  using RedirectPipe_without_input [OF RedirectPipe_null_input]
  unfolding RedirectPipe_null_input
  by (simp add: os_std_def RedirectStdFD_new_def ScopedFD_defined_def ScopedFD_undefined_def)

section \<open>The transaction\<close>

lemma transact_start_eq:
  "transact_start inout self =
     (\<lparr>send_in = \<lparr>sd = (if 0 \<le> in_fd self
                         then Some \<lparr>native_handle = in_fd self, is_open = True\<rparr> else None),
                   buf = (if 0 \<le> in_fd self then inout_in inout else [])\<rparr>,
       recv_out = \<lparr>sd = (if 0 \<le> out_fd self
                          then Some \<lparr>native_handle = out_fd self, is_open = True\<rparr> else None),
                    data = []\<rparr>,
       recv_err = \<lparr>sd = (if 0 \<le> err_fd self
                          then Some \<lparr>native_handle = err_fd self, is_open = True\<rparr> else None),
                    data = []\<rparr>,
       io = \<lparr>pending = (if 0 \<le> in_fd self then [Send_in] else [])
                        @ (if 0 \<le> out_fd self then [Recv_out] else [])
                        @ (if 0 \<le> err_fd self then [Recv_err] else []),
              sd_calls = (if 0 \<le> in_fd self
                          then [Async_write_some Send_in (take 2048 (inout_in inout))] else [])
                        @ (if 0 \<le> out_fd self then [Async_read_some Recv_out 2048] else [])
                        @ (if 0 \<le> err_fd self then [Async_read_some Recv_err 2048] else [])\<rparr>,
       in_pipe = []\<rparr>,
      self\<lparr>in_fd := (if 0 \<le> in_fd self then - 1 else in_fd self),
           out_fd := (if 0 \<le> out_fd self then - 1 else out_fd self),
           err_fd := (if 0 \<le> err_fd self then - 1 else err_fd self)\<rparr>)"
  by (simp add: transact_start_def SD_OUT_ctor_def SD_IN_ctor_def SD_ctor_def SD_defined_def
      queue_write_def queue_read_def started_def set_in_def get_in_def transaction_new_def
      ScopedFD_defined_def ScopedFD_release_def ScopedFD_undefined_def Let_def)

lemma complete_idle: "pending (io t) = [] \<Longrightarrow> complete c t = t"
  by (cases c) simp_all

lemma fold_complete_idle: "pending (io t) = [] \<Longrightarrow> fold complete cs t = t"
  by (induction cs) (simp_all add: complete_idle)

lemma run_eq:
  "run cs t = (if pending (io (fold complete cs t)) = [] then Some (fold complete cs t) else None)"
proof (induction cs arbitrary: t)
  case Nil
  show ?case by simp
next
  case (Cons c cs)
  show ?case
  proof (cases "pending (io t) = []")
    case True
    then have "fold complete (c # cs) t = t" by (rule fold_complete_idle)
    with True show ?thesis by simp
  next
    case False
    with Cons show ?thesis by simp
  qed
qed

lemma terminal_closed [simp]: "terminal (x\<lparr>sd := closed_sd (sd x)\<rparr>)"
  by (cases "sd x") (simp_all add: terminal_def closed_sd_def)

lemma terminal_SD_OUT_buf [simp]: "terminal (x\<lparr>buf := b\<rparr>) = terminal x"
  by (simp add: terminal_def)

lemma terminal_SD_IN_data [simp]: "terminal (x\<lparr>data := b\<rparr>) = terminal x"
  by (simp add: terminal_def)

lemma consistent_complete: "consistent t \<Longrightarrow> consistent (complete c t)"
proof (cases c)
  case (Write_completed ec k)
  assume "consistent t"
  then show ?thesis unfolding Write_completed
    by (auto simp: consistent_def write_handler_def queue_write_def started_def finished_def)
next
  case (Read_completed d ec bs)
  assume "consistent t"
  then show ?thesis unfolding Read_completed
    by (cases d)
       (auto simp: consistent_def read_handler_def queue_read_def started_def finished_def
          get_in_def set_in_def)
qed

lemma consistent_fold: "consistent t \<Longrightarrow> consistent (fold complete cs t)"
  by (induction cs arbitrary: t) (simp_all add: consistent_complete)

lemma consistent_start: "consistent (fst (transact_start inout self))"
  by (simp add: transact_start_eq consistent_def terminal_def)

lemma consistent_idle: "consistent t \<Longrightarrow> (pending (io t) = []) = all_terminal t"
proof -
  assume c: "consistent t"
  have "(pending (io t) = []) = (\<forall>d. d \<notin> set (pending (io t)))"
    by (cases "pending (io t)") auto
  also have "\<dots> = (Send_in \<notin> set (pending (io t)) \<and> Recv_out \<notin> set (pending (io t))
      \<and> Recv_err \<notin> set (pending (io t)))"
    by (metis driver.exhaust)
  finally show ?thesis using c by (auto simp: consistent_def all_terminal_def)
qed


lemma transact_eq:
  "transact cs inout self =
     (if all_terminal (fold complete cs (fst (transact_start inout self)))
      then Some (inout\<lparr>inout_out := data (recv_out (fold complete cs (fst (transact_start inout self)))),
                       inout_err := data (recv_err (fold complete cs (fst (transact_start inout self))))\<rparr>,
                 snd (transact_start inout self))
      else None)"
proof -
  have "consistent (fold complete cs (fst (transact_start inout self)))"
    by (intro consistent_fold consistent_start)
  then show ?thesis
    by (simp add: transact_def split_def run_eq consistent_idle content_def)
qed

text \<open>A driver without a stream descriptor never gets one and never does anything.\<close>

lemma undefined_reader_complete:
  assumes "d \<noteq> Send_in" "sd (get_in d t) = None" "d \<notin> set (pending (io t))"
  shows "get_in d (complete c t) = get_in d t \<and> d \<notin> set (pending (io (complete c t)))"
proof (cases c)
  case (Write_completed ec k)
  with assms show ?thesis
    by (auto simp: write_handler_def queue_write_def started_def finished_def get_in_def)
next
  case (Read_completed d' ec bs)
  with assms show ?thesis
    by (cases d; cases d')
       (auto simp: read_handler_def queue_read_def started_def finished_def get_in_def set_in_def)
qed

lemma undefined_reader_fold:
  assumes "d \<noteq> Send_in" "sd (get_in d t) = None" "d \<notin> set (pending (io t))"
  shows "get_in d (fold complete cs t) = get_in d t"
  using assms
proof (induction cs arbitrary: t)
  case Nil
  show ?case by simp
next
  case (Cons c cs)
  from undefined_reader_complete [OF Cons.prems, of c]
  have "get_in d (complete c t) = get_in d t" "d \<notin> set (pending (io (complete c t)))"
    by simp_all
  with Cons show ?case by simp
qed





lemma undefined_err:
  "\<not> ScopedFD_defined (err_fd self) \<Longrightarrow>
     data (recv_err (fold complete cs (fst (transact_start inout self)))) = []"
  using undefined_reader_fold [of Recv_err "fst (transact_start inout self)" cs]
  by (simp add: transact_start_eq get_in_def ScopedFD_defined_def)




lemma calls_of_snoc:
  "calls_of d (t\<lparr>io := (io t)\<lparr>sd_calls := sd_calls (io t) @ [c]\<rparr>\<rparr>)
     = calls_of d t @ (if call_driver c = d then [c] else [])"
  by (simp add: calls_of_def)

lemma writer_inv_weaken: "writer_inv input failed t \<Longrightarrow> writer_inv input (failed \<or> x) t"
  unfolding writer_inv_def by (auto split: if_splits)

lemma writer_inv_read:
  assumes inv: "writer_inv input failed t"
  shows "writer_inv input failed (complete (Read_completed d ec bs) t)"
proof (cases "d \<noteq> Send_in \<and> d \<in> set (pending (io t))")
  case False
  then have "complete (Read_completed d ec bs) t = t" by auto
  with inv show ?thesis by simp
next
  case True
  let ?t = "complete (Read_completed d ec bs) t"
  from True have "send_in ?t = send_in t" "in_pipe ?t = in_pipe t"
    "(Send_in \<in> set (pending (io ?t))) = (Send_in \<in> set (pending (io t)))"
    "calls_of Send_in ?t = calls_of Send_in t"
    by (auto simp: read_handler_def queue_read_def started_def finished_def set_in_def
        calls_of_def)
  with inv show ?thesis unfolding writer_inv_def by simp
qed

lemma writer_inv_write:
  assumes inv: "writer_inv input failed t"
  shows "writer_inv input (failed \<or> ec) (complete (Write_completed ec k) t)"
proof (cases "Send_in \<in> set (pending (io t))")
  case False
  then have "complete (Write_completed ec k) t = t" by simp
  with inv show ?thesis by (simp add: writer_inv_weaken)
next
  case True
  let ?b = "buf (send_in t)"
  let ?a = "accepted ec k t"
  define t' where "t' = complete (Write_completed ec k) t"
  from inv True have nt: "\<not> terminal (send_in t)" and whole: "in_pipe t @ ?b = input"
    by (auto simp: writer_inv_def split: if_splits)
  from inv nt obtain ws where ws: "calls_of Send_in t = map (Async_write_some Send_in) ws"
    and chunks: "\<forall>w \<in> set ws. length w \<le> 2048 \<and> (\<exists>n. w = take 2048 (drop n input))"
    by (auto simp: writer_inv_def)
  have b: "?b = drop (length (in_pipe t)) input"
    using whole by (metis append_eq_conv_conj)
  have "writer_inv input (failed \<or> ec) t'"
  proof (cases "\<not> ec \<and> length ?a < length ?b")
    case again: True
    then have a: "?a = take (length ?a) ?b"
      by (auto simp: accepted_def min_def)
    have st: "send_in t' = (send_in t)\<lparr>buf := drop (length ?a) ?b\<rparr>"
        "in_pipe t' = in_pipe t @ ?a"
        "Send_in \<in> set (pending (io t'))"
        "calls_of Send_in t' = calls_of Send_in t
           @ [Async_write_some Send_in (take 2048 (drop (length ?a) ?b))]"
    proof -
      from again have ec: "ec = False" and lt: "length (accepted False k t) < length ?b"
        by auto
      show "send_in t' = (send_in t)\<lparr>buf := drop (length ?a) ?b\<rparr>"
        "in_pipe t' = in_pipe t @ ?a"
        "Send_in \<in> set (pending (io t'))"
        "calls_of Send_in t' = calls_of Send_in t
           @ [Async_write_some Send_in (take 2048 (drop (length ?a) ?b))]"
        using True lt unfolding ec t'_def
        by (simp_all add: write_handler_def queue_write_def started_def finished_def calls_of_def)
    qed
    have nt': "\<not> terminal (send_in t')"
      unfolding st using nt by simp
    have "in_pipe t @ ?a @ drop (length ?a) ?b = in_pipe t @ ?b"
      using a by (metis append_take_drop_id)
    then have whole': "in_pipe t' @ buf (send_in t') = input"
      unfolding st using whole by simp
    have "drop (length ?a) ?b = drop (length ?a + length (in_pipe t)) input"
      by (subst b) simp
    then have new: "\<exists>n. take 2048 (drop (length ?a) ?b) = take 2048 (drop n input)"
      by metis
    have "calls_of Send_in t' =
        map (Async_write_some Send_in) (ws @ [take 2048 (drop (length ?a) ?b)])
        @ (if terminal (send_in t') then [Sd_close Send_in] else [])"
      unfolding st(4) ws using nt' by simp
    moreover have "\<forall>w \<in> set (ws @ [take 2048 (drop (length ?a) ?b)]).
        length w \<le> 2048 \<and> (\<exists>n. w = take 2048 (drop n input))"
      using chunks new by auto
    ultimately have ex: "\<exists>ws'. calls_of Send_in t' =
          map (Async_write_some Send_in) ws'
          @ (if terminal (send_in t') then [Sd_close Send_in] else [])
        \<and> (\<forall>w \<in> set ws'. length w \<le> 2048 \<and> (\<exists>n. w = take 2048 (drop n input)))"
      by blast
    show ?thesis
      unfolding writer_inv_def by (intro conjI) (rule ex, simp add: nt' whole' st(3))
  next
    case stop: False
    have st: "terminal (send_in t')" "in_pipe t' = in_pipe t @ ?a"
      "Send_in \<notin> set (pending (io t'))"
      "calls_of Send_in t' = calls_of Send_in t @ [Sd_close Send_in]"
      using True stop unfolding t'_def
      by (auto simp add: write_handler_def finished_def calls_of_def)
    have all_sent: "in_pipe t' = input" if "\<not> ec"
    proof -
      from that stop have "length ?b \<le> length ?a" by simp
      moreover have "?a = take (min k 2048) ?b"
        using that by (simp add: accepted_def min.commute)
      ultimately have ab: "?a = ?b" by (simp add: min_def split: if_splits)
      show ?thesis by (metis st(2) whole ab)
    qed
    have "calls_of Send_in t' = map (Async_write_some Send_in) ws
        @ (if terminal (send_in t') then [Sd_close Send_in] else [])"
      unfolding st(4) ws using st(1) by simp
    with chunks have ex: "\<exists>ws'. calls_of Send_in t' =
          map (Async_write_some Send_in) ws'
          @ (if terminal (send_in t') then [Sd_close Send_in] else [])
        \<and> (\<forall>w \<in> set ws'. length w \<le> 2048 \<and> (\<exists>n. w = take 2048 (drop n input)))"
      by blast
    have "in_pipe t' = input \<or> failed \<or> ec"
      using all_sent by blast
    then show ?thesis
      unfolding writer_inv_def by (intro conjI) (rule ex, simp add: st(1,3))
  qed
  then show ?thesis unfolding t'_def .
qed


lemma writer_inv_start:
  "ScopedFD_defined (in_fd self) \<Longrightarrow>
     writer_inv (inout_in inout) False (fst (transact_start inout self))"
  unfolding writer_inv_def
  by (intro conjI exI [of _ "[take 2048 (inout_in inout)]"])
     (auto simp: transact_start_eq ScopedFD_defined_def calls_of_def terminal_def
       intro: exI [of _ 0])



lemmas transact_eval =
  transact_def transact_start_eq write_handler_def read_handler_def queue_write_def
  queue_read_def started_def finished_def get_in_def set_in_def accepted_def closed_sd_def
  calls_of_def terminal_def content_def ScopedFD_defined_def





lemma read_error_step:
  assumes "d \<noteq> Send_in" "d \<in> set (pending (io t))"
  shows "terminal (get_in d (complete (Read_completed d True bs) t))
    \<and> data (get_in d (complete (Read_completed d True bs) t)) = data (get_in d t)
    \<and> d \<notin> set (pending (io (complete (Read_completed d True bs) t)))
    \<and> calls_of d (complete (Read_completed d True bs) t) = calls_of d t @ [Sd_close d]"
  using assms
  by (cases d) (simp_all add: read_handler_def finished_def get_in_def set_in_def calls_of_def)

lemma write_error_step:
  assumes "Send_in \<in> set (pending (io t))"
  shows "terminal (send_in (complete (Write_completed True k) t))
    \<and> in_pipe (complete (Write_completed True k) t) = in_pipe t
    \<and> Send_in \<notin> set (pending (io (complete (Write_completed True k) t)))
    \<and> calls_of Send_in (complete (Write_completed True k) t) = calls_of Send_in t @ [Sd_close Send_in]"
  using assms
  by (simp add: write_handler_def finished_def calls_of_def accepted_def)

lemma errors_finish:
  assumes "consistent t"
  shows "all_terminal (fold complete
            [Write_completed True k, Read_completed Recv_out True b1,
             Read_completed Recv_err True b2] t)
    \<and> data (recv_out (fold complete
            [Write_completed True k, Read_completed Recv_out True b1,
             Read_completed Recv_err True b2] t)) = data (recv_out t)
    \<and> data (recv_err (fold complete
            [Write_completed True k, Read_completed Recv_out True b1,
             Read_completed Recv_err True b2] t)) = data (recv_err t)"
  using assms
  by (auto simp: consistent_def all_terminal_def write_handler_def read_handler_def
      finished_def get_in_def set_in_def accepted_def)

text \<open>
  C5. \<^verbatim>\<open>transact\<close> has no failure of its own. Whatever completions \<open>cs\<close> came
  before, once the write and the two reads complete with an error (for a read, the
  end of the stream is such an error), \<^verbatim>\<open>transact\<close> returns, and it returns the bytes
  that the readers had accumulated before the errors. In any state \<open>t\<close> of the loop, a
  reader whose read completes with an error closes its descriptor, is terminal with
  the bytes it had, and has nothing outstanding; so does the writer.
\<close>

theorem transact_io_errors:
  "transact (cs @ [Write_completed True k, Read_completed Recv_out True b1,
                   Read_completed Recv_err True b2]) inout self
     = Some (inout\<lparr>inout_out := data (recv_out (fold complete cs (fst (transact_start inout self)))),
                   inout_err := data (recv_err (fold complete cs (fst (transact_start inout self))))\<rparr>,
             snd (transact_start inout self))
   \<and> (d \<noteq> Send_in \<and> d \<in> set (pending (io t)) \<longrightarrow>
        terminal (get_in d (complete (Read_completed d True bs) t))
        \<and> data (get_in d (complete (Read_completed d True bs) t)) = data (get_in d t)
        \<and> d \<notin> set (pending (io (complete (Read_completed d True bs) t)))
        \<and> calls_of d (complete (Read_completed d True bs) t) = calls_of d t @ [Sd_close d])
   \<and> (Send_in \<in> set (pending (io t)) \<longrightarrow>
        terminal (send_in (complete (Write_completed True k) t))
        \<and> Send_in \<notin> set (pending (io (complete (Write_completed True k) t)))
        \<and> calls_of Send_in (complete (Write_completed True k) t)
            = calls_of Send_in t @ [Sd_close Send_in])"
proof -
  have "consistent (fold complete cs (fst (transact_start inout self)))"
    by (intro consistent_fold consistent_start)
  from errors_finish [OF this, of k b1 b2]
  have "transact (cs @ [Write_completed True k, Read_completed Recv_out True b1,
                   Read_completed Recv_err True b2]) inout self
     = Some (inout\<lparr>inout_out := data (recv_out (fold complete cs (fst (transact_start inout self)))),
                   inout_err := data (recv_err (fold complete cs (fst (transact_start inout self))))\<rparr>,
             snd (transact_start inout self))"
    unfolding transact_eq fold_append comp_def by simp
  then show ?thesis
    using read_error_step [of d t bs] write_error_step [of t k] by blast
qed

text \<open>
  The theorem for C5 when the output has delivered \<open>par\<close> and then every stream fails.
\<close>

theorem transact_io_errors_witness:
  "transact ([Read_completed Recv_out False ''par''] @
       [Write_completed True 0, Read_completed Recv_out True ''tial'', Read_completed Recv_err True []])
      \<lparr>inout_in = ''abc'', inout_out = [], inout_err = []\<rparr>
      \<lparr>in_fd = 5, out_fd = 3, err_fd = 4, combine_out_err = False\<rparr>
    = Some (\<lparr>inout_in = ''abc'', inout_out = ''par'', inout_err = []\<rparr>,
            \<lparr>in_fd = - 1, out_fd = - 1, err_fd = - 1, combine_out_err = False\<rparr>)
   \<and> Recv_out \<in> set (pending (io (fst (transact_start
        \<lparr>inout_in = ''abc'', inout_out = [], inout_err = []\<rparr>
        \<lparr>in_fd = 5, out_fd = 3, err_fd = 4, combine_out_err = False\<rparr>))))
   \<and> terminal (get_in Recv_out (complete (Read_completed Recv_out True ''tial'')
        (fst (transact_start \<lparr>inout_in = ''abc'', inout_out = [], inout_err = []\<rparr>
           \<lparr>in_fd = 5, out_fd = 3, err_fd = 4, combine_out_err = False\<rparr>))))
   \<and> Send_in \<in> set (pending (io (fst (transact_start
        \<lparr>inout_in = ''abc'', inout_out = [], inout_err = []\<rparr>
        \<lparr>in_fd = 5, out_fd = 3, err_fd = 4, combine_out_err = False\<rparr>))))
   \<and> terminal (send_in (complete (Write_completed True 0)
        (fst (transact_start \<lparr>inout_in = ''abc'', inout_out = [], inout_err = []\<rparr>
           \<lparr>in_fd = 5, out_fd = 3, err_fd = 4, combine_out_err = False\<rparr>))))"
  using transact_io_errors [of "[Read_completed Recv_out False ''par'']" 0 "''tial''" "[]"
      "\<lparr>inout_in = ''abc'', inout_out = [], inout_err = []\<rparr>"
      "\<lparr>in_fd = 5, out_fd = 3, err_fd = 4, combine_out_err = False\<rparr>" Recv_out
      "fst (transact_start \<lparr>inout_in = ''abc'', inout_out = [], inout_err = []\<rparr>
           \<lparr>in_fd = 5, out_fd = 3, err_fd = 4, combine_out_err = False\<rparr>)" "''tial''"]
  by (simp add: transact_eval)

lemma start_released:
  "\<not> ScopedFD_defined (in_fd (snd (transact_start inout self)))
   \<and> \<not> ScopedFD_defined (out_fd (snd (transact_start inout self)))
   \<and> \<not> ScopedFD_defined (err_fd (snd (transact_start inout self)))"
  by (simp add: transact_start_eq ScopedFD_defined_def)

lemma transact_nothing_defined:
  assumes "\<not> ScopedFD_defined (in_fd self)" "\<not> ScopedFD_defined (out_fd self)"
    "\<not> ScopedFD_defined (err_fd self)"
  shows "pending (io (fst (transact_start inout self))) = []
    \<and> transact cs inout self = Some (inout\<lparr>inout_out := [], inout_err := []\<rparr>, self)"
proof -
  from assms have p: "pending (io (fst (transact_start inout self))) = []"
    and s: "snd (transact_start inout self) = self"
    and d: "data (recv_out (fst (transact_start inout self))) = []"
      "data (recv_err (fst (transact_start inout self))) = []"
    by (simp_all add: transact_start_eq ScopedFD_defined_def)
  show ?thesis
    using p s d by (simp add: transact_def split_def run_eq fold_complete_idle content_def)
qed

text \<open>
  C10. Each driver releases the handle it is built from, so when \<^verbatim>\<open>transact\<close> has
  returned the three handles of the redirector are undefined. Any further call of
  \<^verbatim>\<open>transact\<close> on the object then starts no operation and returns at once, whatever
  the system would report (\<open>cs2\<close>), with empty output and empty error.
\<close>

theorem transact_releases_handles:
  assumes "transact cs inout self = Some (r, self')"
  shows "\<not> ScopedFD_defined (in_fd self') \<and> \<not> ScopedFD_defined (out_fd self')
    \<and> \<not> ScopedFD_defined (err_fd self')
    \<and> pending (io (fst (transact_start inout2 self'))) = []
    \<and> transact cs2 inout2 self' = Some (inout2\<lparr>inout_out := [], inout_err := []\<rparr>, self')"
proof -
  from assms have "self' = snd (transact_start inout self)"
    by (simp add: transact_eq split: if_splits)
  then have u: "\<not> ScopedFD_defined (in_fd self')" "\<not> ScopedFD_defined (out_fd self')"
    "\<not> ScopedFD_defined (err_fd self')"
    using start_released [of inout self] by simp_all
  with transact_nothing_defined [OF u, of inout2 cs2] show ?thesis by simp
qed

text \<open>
  The theorem for C10: a first call that echoes \<open>hello\<close>, and a second call on the
  object as the first one left it.
\<close>

theorem transact_releases_handles_witness:
  "transact [Write_completed False 5, Read_completed Recv_out False ''hello'',
             Read_completed Recv_out True []]
      \<lparr>inout_in = ''hello'', inout_out = [], inout_err = []\<rparr>
      \<lparr>in_fd = 6, out_fd = 3, err_fd = - 1, combine_out_err = True\<rparr>
    = Some (\<lparr>inout_in = ''hello'', inout_out = ''hello'', inout_err = []\<rparr>,
            \<lparr>in_fd = - 1, out_fd = - 1, err_fd = - 1, combine_out_err = True\<rparr>)
   \<and> transact [Write_completed False 5, Read_completed Recv_out False ''hello'',
             Read_completed Recv_out True []]
      \<lparr>inout_in = ''again'', inout_out = ''old'', inout_err = ''old''\<rparr>
      \<lparr>in_fd = - 1, out_fd = - 1, err_fd = - 1, combine_out_err = True\<rparr>
    = Some (\<lparr>inout_in = ''again'', inout_out = [], inout_err = []\<rparr>,
            \<lparr>in_fd = - 1, out_fd = - 1, err_fd = - 1, combine_out_err = True\<rparr>)"
proof -
  have first: "transact [Write_completed False 5, Read_completed Recv_out False ''hello'',
             Read_completed Recv_out True []]
      \<lparr>inout_in = ''hello'', inout_out = [], inout_err = []\<rparr>
      \<lparr>in_fd = 6, out_fd = 3, err_fd = - 1, combine_out_err = True\<rparr>
    = Some (\<lparr>inout_in = ''hello'', inout_out = ''hello'', inout_err = []\<rparr>,
            \<lparr>in_fd = - 1, out_fd = - 1, err_fd = - 1, combine_out_err = True\<rparr>)"
    by (simp add: transact_eval)
  from transact_releases_handles [OF first,
      of "\<lparr>inout_in = ''again'', inout_out = ''old'', inout_err = ''old''\<rparr>"
        "[Write_completed False 5, Read_completed Recv_out False ''hello'',
             Read_completed Recv_out True []]"]
  show ?thesis using first by simp
qed

lemma transacts_err_empty:
  assumes "\<not> ScopedFD_defined (err_fd self)" "transacts reqs self = Some (rs, self')"
  shows "\<forall>r \<in> set rs. inout_err r = []"
  using assms
proof (induction reqs arbitrary: self rs)
  case Nil
  then show ?case by simp
next
  case (Cons c reqs)
  obtain cs inout where c: "c = (cs, inout)" by force
  from Cons.prems(2) obtain r self1 rs1 where
    t: "transact cs inout self = Some (r, self1)" and
    ts: "transacts reqs self1 = Some (rs1, self')" and rs: "rs = r # rs1"
    unfolding c by (auto split: option.splits)
  from t have r: "inout_err r = []"
    and "self1 = snd (transact_start inout self)"
    using undefined_err [OF Cons.prems(1), of cs inout]
    by (auto simp: transact_eq split: if_splits)
  then have "\<not> ScopedFD_defined (err_fd self1)"
    using start_released [of inout self] by simp
  from Cons.IH [OF this ts] r rs show ?case by simp
qed

text \<open>
  C6. With \<open>combine_out_err = true\<close> the constructor creates the pipe for the output
  and, when input is enabled, the pipe for the input, and no other; when it succeeds
  the \<open>err\<close> handle of the new object is undefined, and every call of \<^verbatim>\<open>transact\<close>
  made on the object afterwards, one after the other, returns an empty \<open>err\<close>.
\<close>

theorem RedirectPipe_combined:
  assumes "RedirectPipe remote_arg True en s = (res, remote', s')"
  shows "npipes s' \<le> npipes s + (if en then 2 else 1)
    \<and> (\<forall>self. res = Inr self \<longrightarrow>
          \<not> ScopedFD_defined (err_fd self)
          \<and> npipes s' = npipes s + (if en then 2 else 1)
          \<and> (\<forall>reqs rs self'. transacts reqs self = Some (rs, self') \<longrightarrow>
                (\<forall>r \<in> set rs. inout_err r = [])))"
  using RedirectPipe_combined_ctor [OF assms] transacts_err_empty by blast

text \<open>
  The theorem for C6 on a redirector with combined output and no input, used twice.
\<close>

theorem RedirectPipe_combined_witness:
  "npipes (snd (snd (RedirectPipe RedirectStdFD_new True False os_std))) = npipes os_std + 1
   \<and> \<not> ScopedFD_defined (err_fd \<lparr>in_fd = - 1, out_fd = 3, err_fd = - 1, combine_out_err = True\<rparr>)
   \<and> transacts [([Read_completed Recv_out False ''ready'', Read_completed Recv_out True []],
                 \<lparr>inout_in = [], inout_out = [], inout_err = []\<rparr>),
                ([], \<lparr>inout_in = ''more'', inout_out = [], inout_err = []\<rparr>)]
        \<lparr>in_fd = - 1, out_fd = 3, err_fd = - 1, combine_out_err = True\<rparr>
      = Some ([\<lparr>inout_in = [], inout_out = ''ready'', inout_err = []\<rparr>,
               \<lparr>inout_in = ''more'', inout_out = [], inout_err = []\<rparr>],
              \<lparr>in_fd = - 1, out_fd = - 1, err_fd = - 1, combine_out_err = True\<rparr>)"
  using RedirectPipe_combined [OF RedirectPipe_null_input]
  unfolding RedirectPipe_null_input
  by (simp add: transact_eval os_std_def)

section \<open>The transaction with a child that copies its input\<close>

lemma echo_run_fst:
  "fst (echo_run as (t, p)) = fold complete (echo_completions as t p) t"
  by (induction as arbitrary: t p) (auto split: option.splits)

lemma echo_run_append: "echo_run (as @ bs) x = echo_run bs (echo_run as x)"
  by (induction as arbitrary: x) (auto split: option.splits)

lemma echo_step_inv:
  assumes inv: "echo_inv input t p" and step: "echo_completion a t p = Some (c, p')"
  shows "echo_inv input (complete c t) p'"
proof (cases a)
  case (Do_write k)
  with step have c: "c = Write_completed False k" "p' = p @ accepted False k t"
    and pend: "Send_in \<in> set (pending (io t))"
    by (auto split: if_splits)
  from inv pend have nt: "\<not> terminal (send_in t)" "\<not> terminal (recv_out t)"
    by (auto simp: echo_inv_def consistent_def split: if_splits)
  have w: "writer_inv input False (complete c t)"
    using writer_inv_write [of input False t False k] inv unfolding c
    by (simp add: echo_inv_def)
  have same: "recv_out (complete c t) = recv_out t" "recv_err (complete c t) = recv_err t"
    "in_pipe (complete c t) = in_pipe t @ accepted False k t"
    using pend unfolding c
    by (simp_all add: write_handler_def queue_write_def accepted_def)
  show ?thesis
    unfolding echo_inv_def same
    using inv w nt consistent_complete [of t c] c(2)
    by (simp add: echo_inv_def)
next
  case (Do_read_out k)
  from step Do_read_out have pend: "Recv_out \<in> set (pending (io t))"
    by (auto split: if_splits)
  have w: "writer_inv input False (complete c t)" if "c = Read_completed Recv_out ec bs" for ec bs
    using writer_inv_read [of input False t Recv_out ec bs] inv that
    by (simp add: echo_inv_def)
  show ?thesis
  proof (cases "p = []")
    case False
    let ?m = "max 1 (min k 2048)"
    from step Do_read_out pend False
    have c: "c = Read_completed Recv_out False (take ?m p)" "p' = drop ?m p"
      by (auto split: if_splits)
    have st: "recv_out (complete c t) = (recv_out t)\<lparr>data := data (recv_out t) @ take ?m p\<rparr>"
      "recv_err (complete c t) = recv_err t" "in_pipe (complete c t) = in_pipe t"
      "send_in (complete c t) = send_in t"
      using pend unfolding c
      by (simp_all add: read_handler_def queue_read_def get_in_def set_in_def min_def max_def)
    from inv pend have nt: "\<not> terminal (recv_out t)"
      by (auto simp: echo_inv_def consistent_def)
    show ?thesis
      unfolding echo_inv_def st
      using inv w [OF c(1)] nt consistent_complete [of t c] c(2)
      by (simp add: echo_inv_def)
  next
    case True
    from step Do_read_out pend True
    have c: "c = Read_completed Recv_out True []" "p' = p" and wt: "terminal (send_in t)"
      by (auto split: if_splits)
    have st: "terminal (recv_out (complete c t))" "data (recv_out (complete c t)) = data (recv_out t)"
      "recv_err (complete c t) = recv_err t" "in_pipe (complete c t) = in_pipe t"
      "send_in (complete c t) = send_in t"
      using pend unfolding c
      by (simp_all add: read_handler_def get_in_def set_in_def)
    show ?thesis
      unfolding echo_inv_def st
      using inv w [OF c(1)] wt st(1) consistent_complete [of t c] c(2) True
      by (simp add: echo_inv_def)
  qed
next
  case Do_read_err
  with step have c: "c = Read_completed Recv_err True []" "p' = p"
    and pend: "Recv_err \<in> set (pending (io t))"
    by (auto split: if_splits)
  have w: "writer_inv input False (complete c t)"
    using writer_inv_read [of input False t Recv_err True "[]"] inv unfolding c
    by (simp add: echo_inv_def)
  have st: "recv_out (complete c t) = recv_out t"
    "data (recv_err (complete c t)) = data (recv_err t)" "in_pipe (complete c t) = in_pipe t"
    "send_in (complete c t) = send_in t"
    using pend unfolding c
    by (simp_all add: read_handler_def get_in_def set_in_def)
  show ?thesis
    unfolding echo_inv_def st
    using inv w consistent_complete [of t c] c(2)
    by (simp add: echo_inv_def)
qed

lemma echo_run_inv:
  "echo_inv input t p \<Longrightarrow> echo_inv input (fst (echo_run as (t, p))) (snd (echo_run as (t, p)))"
proof (induction as arbitrary: t p)
  case Nil
  then show ?case by simp
next
  case (Cons a as)
  show ?case
  proof (cases "echo_completion a t p")
    case None
    with Cons show ?thesis by simp
  next
    case (Some x)
    obtain c p' where x: "x = (c, p')" by force
    from echo_step_inv [OF Cons.prems Some [unfolded x]] Cons.IH [of "complete c t" p']
    show ?thesis using Some x by simp
  qed
qed

lemma echo_inv_start:
  assumes "ScopedFD_defined (in_fd self)" "ScopedFD_defined (out_fd self)"
  shows "echo_inv (inout_in inout) (fst (transact_start inout self)) []"
  unfolding echo_inv_def
  using assms writer_inv_start [OF assms(1), of inout] consistent_start [of inout self]
  by (simp add: transact_start_eq ScopedFD_defined_def terminal_def)

lemma echo_inv_final:
  assumes "echo_inv input t p" "all_terminal t"
  shows "data (recv_out t) = input \<and> data (recv_err t) = []"
  using assms by (auto simp: echo_inv_def all_terminal_def writer_inv_def)

lemma echo_transact_safe:
  assumes "ScopedFD_defined (in_fd self)" "ScopedFD_defined (out_fd self)"
    and "echo_transact as inout self = Some r"
  shows "inout_out (fst r) = inout_in inout \<and> inout_err (fst r) = []"
proof -
  let ?start = "fst (transact_start inout self)"
  let ?t = "fold complete (echo_completions as ?start []) ?start"
  have "echo_inv (inout_in inout) ?t (snd (echo_run as (?start, [])))"
    using echo_run_inv [OF echo_inv_start [OF assms(1,2), of inout], of as]
    by (simp add: echo_run_fst)
  moreover from assms(3) have "all_terminal ?t"
    and r: "fst r = inout\<lparr>inout_out := data (recv_out ?t), inout_err := data (recv_err ?t)\<rparr>"
    by (auto simp: echo_transact_def transact_eq split: if_splits)
  ultimately show ?thesis
    using echo_inv_final by (simp add: r)
qed


lemma echo_run_idle: "pending (io t) = [] \<Longrightarrow> echo_run as (t, p) = (t, p)"
proof (induction as)
  case Nil
  show ?case by simp
next
  case (Cons a as)
  from Cons.prems have "echo_completion a t p = None" by (cases a) simp_all
  with Cons show ?case by simp
qed

lemma step_write_more:
  assumes "consistent t" "\<not> terminal (send_in t)" "2048 < length (buf (send_in t))"
    and "echo_run [Do_write 2048] (t, p) = (t', p')"
  shows "\<not> terminal (send_in t') \<and> buf (send_in t') = drop 2048 (buf (send_in t))
    \<and> p' = p @ take 2048 (buf (send_in t))
    \<and> recv_out t' = recv_out t \<and> recv_err t' = recv_err t"
  using assms
  by (auto simp add: consistent_def write_handler_def queue_write_def accepted_def terminal_def)

lemma step_write_last:
  assumes "consistent t" "\<not> terminal (send_in t)" "length (buf (send_in t)) \<le> 2048"
    and "echo_run [Do_write 2048] (t, p) = (t', p')"
  shows "terminal (send_in t') \<and> p' = p @ buf (send_in t)
    \<and> recv_out t' = recv_out t \<and> recv_err t' = recv_err t"
  using assms
  by (auto simp add: consistent_def write_handler_def accepted_def)

lemma step_write_none:
  assumes "consistent t" "terminal (send_in t)"
  shows "echo_run [Do_write k] (t, p) = (t, p)"
  using assms by (simp add: consistent_def)

lemma step_read_data:
  assumes "consistent t" "\<not> terminal (recv_out t)" "p \<noteq> []" "length p \<le> 2048"
    and "echo_run [Do_read_out 2048] (t, p) = (t', p')"
  shows "\<not> terminal (recv_out t') \<and> p' = []
    \<and> send_in t' = send_in t \<and> recv_err t' = recv_err t"
  using assms
  by (auto simp add: consistent_def read_handler_def queue_read_def get_in_def set_in_def
      terminal_def)

lemma step_read_eof:
  assumes "consistent t" "terminal (send_in t)"
    and "echo_run [Do_read_out 2048] (t, []) = (t', p')"
  shows "terminal (recv_out t') \<and> p' = []
    \<and> send_in t' = send_in t \<and> recv_err t' = recv_err t"
  using assms
  by (auto simp add: consistent_def read_handler_def get_in_def set_in_def split: if_splits)

lemma step_err_closes:
  assumes "consistent t" "terminal (send_in t)"
    and "echo_run [Do_read_err] (t, p) = (t', p')"
  shows "terminal (recv_err t') \<and> p' = p
    \<and> send_in t' = send_in t \<and> recv_out t' = recv_out t"
  using assms
  by (auto simp add: consistent_def read_handler_def get_in_def set_in_def split: if_splits)

lemma step_err_waits:
  assumes "\<not> terminal (send_in t)"
  shows "echo_run [Do_read_err] (t, p) = (t, p)"
  using assms by simp

lemma echo_run_inv_pair:
  assumes "echo_inv input t p" "echo_run as (t, p) = (t', p')"
  shows "echo_inv input t' p'" and "consistent t'"
  using echo_run_inv [OF assms(1), of as] unfolding assms(2)
  by (simp_all add: echo_inv_def)

lemma round_ex:
  "\<exists>t1 p1 t2 p2 t3 p3.
     echo_run [Do_write 2048] (t, p) = (t1, p1)
     \<and> echo_run [Do_read_out 2048] (t1, p1) = (t2, p2)
     \<and> echo_run [Do_read_err] (t2, p2) = (t3, p3)
     \<and> (\<forall>n. echo_run (round_robin (Suc n)) (t, p) = echo_run (round_robin n) (t3, p3))"
proof -
  obtain t1 p1 where x1: "echo_run [Do_write 2048] (t, p) = (t1, p1)" by force
  obtain t2 p2 where x2: "echo_run [Do_read_out 2048] (t1, p1) = (t2, p2)" by force
  obtain t3 p3 where x3: "echo_run [Do_read_err] (t2, p2) = (t3, p3)" by force
  have "echo_run ([Do_write 2048] @ [Do_read_out 2048] @ [Do_read_err] @ round_robin n) (t, p)
      = echo_run (round_robin n) (t3, p3)" for n
    unfolding echo_run_append x1 x2 x3 ..
  then have "\<forall>n. echo_run (round_robin (Suc n)) (t, p) = echo_run (round_robin n) (t3, p3)"
    by (simp add: round_robin_def)
  with x1 x2 x3 show ?thesis by blast
qed

lemma last_round:
  assumes inv: "echo_inv input t []" and wt: "terminal (send_in t)"
  shows "all_terminal (fst (echo_run (round_robin (Suc n)) (t, [])))"
proof -
  obtain t1 p1 t2 p2 t3 p3 where
    x1: "echo_run [Do_write 2048] (t, []) = (t1, p1)" and
    x2: "echo_run [Do_read_out 2048] (t1, p1) = (t2, p2)" and
    x3: "echo_run [Do_read_err] (t2, p2) = (t3, p3)" and
    rr: "\<forall>n. echo_run (round_robin (Suc n)) (t, []) = echo_run (round_robin n) (t3, p3)"
    using round_ex [of t "[]"] by blast
  from inv have ct: "consistent t" by (simp add: echo_inv_def)
  from step_write_none [OF ct wt, of 2048 "[]"] x1 have e1: "t1 = t" "p1 = []" by simp_all
  note f2 = step_read_eof [OF ct wt x2 [unfolded e1]]
  note i2 = echo_run_inv_pair [OF inv x2 [unfolded e1]]
  from f2 wt have w2: "terminal (send_in t2)" by simp
  note f3 = step_err_closes [OF i2(2) w2 x3]
  note i3 = echo_run_inv_pair [OF i2(1) x3]
  have at: "all_terminal t3"
    using f2 f3 wt by (simp add: all_terminal_def)
  with i3(2) have idle: "pending (io t3) = []" by (simp add: consistent_idle)
  show ?thesis
    using rr echo_run_idle [OF idle, of "round_robin n" p3] at by simp
qed

lemma short_input_finishes:
  assumes inv: "echo_inv input t []" and nt: "\<not> terminal (send_in t)"
    and r: "\<not> terminal (recv_out t)" and len: "length (buf (send_in t)) \<le> 2048"
  shows "all_terminal (fst (echo_run (round_robin (Suc (Suc n))) (t, [])))"
proof -
  obtain t1 p1 t2 p2 t3 p3 where
    x1: "echo_run [Do_write 2048] (t, []) = (t1, p1)" and
    x2: "echo_run [Do_read_out 2048] (t1, p1) = (t2, p2)" and
    x3: "echo_run [Do_read_err] (t2, p2) = (t3, p3)" and
    rr: "\<forall>n. echo_run (round_robin (Suc n)) (t, []) = echo_run (round_robin n) (t3, p3)"
    using round_ex [of t "[]"] by blast
  from inv have ct: "consistent t" by (simp add: echo_inv_def)
  note f1 = step_write_last [OF ct nt len x1]
  note i1 = echo_run_inv_pair [OF inv x1]
  from f1 have w1: "terminal (send_in t1)" and p1: "length p1 \<le> 2048"
    and r1: "\<not> terminal (recv_out t1)"
    using len r by simp_all
  have f2: "p2 = [] \<and> send_in t2 = send_in t1"
  proof (cases "p1 = []")
    case True
    from step_read_eof [OF i1(2) w1 x2 [unfolded True]] show ?thesis by simp
  next
    case False
    from step_read_data [OF i1(2) r1 False p1 x2] show ?thesis by simp
  qed
  note i2 = echo_run_inv_pair [OF i1(1) x2]
  from f2 w1 have w2: "terminal (send_in t2)" by simp
  note f3 = step_err_closes [OF i2(2) w2 x3]
  note i3 = echo_run_inv_pair [OF i2(1) x3]
  from f3 f2 w2 have e3: "p3 = []" "terminal (send_in t3)" by simp_all
  show ?thesis
    using rr last_round [OF i3(1) [unfolded e3(1)] e3(2), of n] e3(1) by simp
qed

lemma round_robin_finishes:
  assumes "echo_inv input t []" "\<not> terminal (send_in t)" "\<not> terminal (recv_out t)"
    and "length (buf (send_in t)) \<le> 2048 * n"
  shows "all_terminal (fst (echo_run (round_robin (Suc (Suc n))) (t, [])))"
  using assms
proof (induction n arbitrary: t)
  case 0
  then show ?case by (intro short_input_finishes) simp_all
next
  case (Suc n)
  show ?case
  proof (cases "length (buf (send_in t)) \<le> 2048")
    case True
    with Suc.prems show ?thesis by (intro short_input_finishes) simp_all
  next
    case False
    obtain t1 p1 t2 p2 t3 p3 where
      x1: "echo_run [Do_write 2048] (t, []) = (t1, p1)" and
      x2: "echo_run [Do_read_out 2048] (t1, p1) = (t2, p2)" and
      x3: "echo_run [Do_read_err] (t2, p2) = (t3, p3)" and
      rr: "\<forall>n. echo_run (round_robin (Suc n)) (t, []) = echo_run (round_robin n) (t3, p3)"
      using round_ex [of t "[]"] by blast
    from Suc.prems(1) have ct: "consistent t" by (simp add: echo_inv_def)
    from False have long: "2048 < length (buf (send_in t))" by simp
    note f1 = step_write_more [OF ct Suc.prems(2) long x1]
    note i1 = echo_run_inv_pair [OF Suc.prems(1) x1]
    from f1 long Suc.prems(3) have p1: "p1 \<noteq> []" "length p1 \<le> 2048"
      and r1: "\<not> terminal (recv_out t1)"
      by auto
    note f2 = step_read_data [OF i1(2) r1 p1 x2]
    note i2 = echo_run_inv_pair [OF i1(1) x2]
    from f1 f2 have w2: "\<not> terminal (send_in t2)" by simp
    from step_err_waits [OF w2, of p2] x3 f2 have e3: "t3 = t2" "p3 = []" by simp_all
    have "all_terminal (fst (echo_run (round_robin (Suc (Suc n))) (t2, [])))"
    proof (rule Suc.IH)
      show "echo_inv input t2 []" using i2(1) f2 by simp
      show "\<not> terminal (send_in t2)" by (rule w2)
      show "\<not> terminal (recv_out t2)" using f2 by simp
      show "length (buf (send_in t2)) \<le> 2048 * n"
        using f1 f2 Suc.prems(4) by simp
    qed
    then show ?thesis using rr e3 by simp
  qed
qed


lemma echo_transact_round_robin:
  assumes "ScopedFD_defined (in_fd self)" "ScopedFD_defined (out_fd self)"
  shows "echo_transact (round_robin (length (inout_in inout) + 2)) inout self
    = Some (inout\<lparr>inout_out := inout_in inout, inout_err := []\<rparr>,
            snd (transact_start inout self))"
proof -
  let ?start = "fst (transact_start inout self)"
  let ?as = "round_robin (Suc (Suc (length (inout_in inout))))"
  have "all_terminal (fst (echo_run ?as (?start, [])))"
  proof (rule round_robin_finishes)
    show "echo_inv (inout_in inout) ?start []"
      using assms by (rule echo_inv_start)
    show "\<not> terminal (send_in ?start)" "\<not> terminal (recv_out ?start)"
      using assms by (simp_all add: transact_start_eq ScopedFD_defined_def terminal_def)
    show "length (buf (send_in ?start)) \<le> 2048 * length (inout_in inout)"
      using assms by (simp add: transact_start_eq ScopedFD_defined_def)
  qed
  then have "all_terminal (fold complete (echo_completions ?as ?start []) ?start)"
    by (simp add: echo_run_fst)
  then obtain r where r: "echo_transact ?as inout self = Some r"
    and s: "snd r = snd (transact_start inout self)"
    and i: "inout_in (fst r) = inout_in inout"
    by (simp add: echo_transact_def transact_eq)
  from echo_transact_safe [OF assms r] i
  have "fst r = inout\<lparr>inout_out := inout_in inout, inout_err := []\<rparr>"
    using r by (auto simp add: echo_transact_def transact_eq split: if_splits)
  with r s show ?thesis by (metis Suc_eq_plus1 add_2_eq_Suc' prod.collapse)
qed

text \<open>
  C3, as the code has it. Let the parent-side input and output handles of the
  redirector be defined (it was built with input enabled and \<^verbatim>\<open>transact\<close> has not
  been called on it yet), and let the child copy its input to its output. Then for
  every input and every schedule of the system, if \<^verbatim>\<open>transact\<close> returns, its output
  is the input and its error is empty; and it does return, with that result, when the
  system serves the three streams in turn.
\<close>

theorem echo_transact_copies:
  assumes "ScopedFD_defined (in_fd self)" "ScopedFD_defined (out_fd self)"
  shows "(\<forall>as r. echo_transact as inout self = Some r \<longrightarrow>
            inout_out (fst r) = inout_in inout \<and> inout_err (fst r) = [])
    \<and> echo_transact (round_robin (length (inout_in inout) + 2)) inout self
        = Some (inout\<lparr>inout_out := inout_in inout, inout_err := []\<rparr>,
                snd (transact_start inout self))"
  using echo_transact_safe [OF assms] echo_transact_round_robin [OF assms] by blast

lemma RedirectPipe_with_input:
  "RedirectPipe RedirectStdFD_new True True os_std =
     (Inr \<lparr>in_fd = 6, out_fd = 3, err_fd = - 1, combine_out_err = True\<rparr>,
      \<lparr>in_fd = 5, out_fd = 4, err_fd = - 1, combine_out_err = True\<rparr>,
      \<lparr>fdtab = [(0, Path ''/dev/tty'' 2), (1, Path ''/dev/tty'' 2), (2, Path ''/dev/tty'' 2),
                (3, Pipe_read 0), (4, Pipe_write 0), (5, Pipe_read 1), (6, Pipe_write 1)],
       cloexec_set = [6, 3], npipes = 2, faults = [],
       calls = [Sys_pipe, Sys_fcntl 3, Sys_pipe, Sys_fcntl 6]\<rparr>)"
  by (simp add: RedirectPipe_def RedirectPipe_body_def ctor_stdout_def ctor_stderr_def
      ctor_stdin_def make_pipe_def cloexec_def sys_pipe_def sys_fcntl_cloexec_def sys_open_def
      take_fault_def logged_def lowest_free_def open_fds_def os_std_def O_RDONLY_def
      RedirectStdFD_new_def RedirectStdFD_destroy_def ScopedFD_reset_def ScopedFD_close_def
      ScopedFD_defined_def ScopedFD_undefined_def sys_close_def PipeCreationError_def
      CloexecError_def Let_def)

text \<open>
  The theorem for C3 on the redirector that the constructor builds with combined output
  and input enabled, for the input \<open>hello\<close>.
\<close>

theorem echo_transact_copies_witness:
  "fst (RedirectPipe RedirectStdFD_new True True os_std)
     = Inr \<lparr>in_fd = 6, out_fd = 3, err_fd = - 1, combine_out_err = True\<rparr>
   \<and> ScopedFD_defined (in_fd \<lparr>in_fd = 6, out_fd = 3, err_fd = - 1, combine_out_err = True\<rparr>)
   \<and> ScopedFD_defined (out_fd \<lparr>in_fd = 6, out_fd = 3, err_fd = - 1, combine_out_err = True\<rparr>)
   \<and> echo_transact (round_robin (length ''hello'' + 2))
        \<lparr>inout_in = ''hello'', inout_out = [], inout_err = []\<rparr>
        \<lparr>in_fd = 6, out_fd = 3, err_fd = - 1, combine_out_err = True\<rparr>
      = Some (\<lparr>inout_in = ''hello'', inout_out = ''hello'', inout_err = []\<rparr>,
              \<lparr>in_fd = - 1, out_fd = - 1, err_fd = - 1, combine_out_err = True\<rparr>)"
  using echo_transact_copies
    [of "\<lparr>in_fd = 6, out_fd = 3, err_fd = - 1, combine_out_err = True\<rparr>"
      "\<lparr>inout_in = ''hello'', inout_out = [], inout_err = []\<rparr>"]
  unfolding RedirectPipe_with_input
  by (simp add: ScopedFD_defined_def transact_start_eq)

text \<open>
  C3 as stated fails on a redirector built with \<open>enable_in = false\<close>: the child
  copies its input, which is the null device, \<^verbatim>\<open>transact\<close> sends nothing, and its
  output for the input \<open>x\<close> is empty. The same holds for a second call of
  \<^verbatim>\<open>transact\<close> on any redirector.
\<close>

theorem echo_without_input_counterexample:
  "fst (RedirectPipe RedirectStdFD_new True False os_std)
     = Inr \<lparr>in_fd = - 1, out_fd = 3, err_fd = - 1, combine_out_err = True\<rparr>
   \<and> echo_transact (round_robin 1) \<lparr>inout_in = ''x'', inout_out = [], inout_err = []\<rparr>
        \<lparr>in_fd = - 1, out_fd = 3, err_fd = - 1, combine_out_err = True\<rparr>
      = Some (\<lparr>inout_in = ''x'', inout_out = [], inout_err = []\<rparr>,
              \<lparr>in_fd = - 1, out_fd = - 1, err_fd = - 1, combine_out_err = True\<rparr>)"
  unfolding RedirectPipe_null_input
  by (simp add: echo_transact_def round_robin_def transact_eval)

end
